theory Spec2Isabelle
  imports Complex_Main
begin

section \<open>JavaScript numbers\<close>

text \<open>
  A JavaScript \<open>number\<close> is an IEEE 754 double: a finite value, one of the two
  infinities, or NaN. A finite value is carried as the real number it denotes; the two
  zeros are one value (they compare equal in the source's comparisons). A decimal
  literal of the source is taken at its decimal value.
\<close>

datatype jsnum = Fin real | PInf | NInf | NaN

fun isFinite :: "jsnum \<Rightarrow> bool" where
  "isFinite (Fin x) = True"
| "isFinite _ = False"

fun js_neg :: "jsnum \<Rightarrow> jsnum" where
  "js_neg (Fin x) = Fin (- x)"
| "js_neg PInf = NInf"
| "js_neg NInf = PInf"
| "js_neg NaN = NaN"

text \<open>
  What the platform does to finite operands is not fixed by the source: how the exact
  result of \<open>+\<close>, \<open>-\<close>, \<open>*\<close>, \<open>/\<close> is rounded to a double (\<open>rnd\<close>), and which doubles
  \<open>Math.sin\<close>, \<open>Math.cos\<close>, \<open>Math.sqrt\<close> and \<open>Math.atan2\<close> return for finite arguments
  (ECMAScript leaves them implementation-approximated). These are the fields of the
  floating-point environment, and every function that computes takes one.
\<close>

record fpenv =
  rnd :: "real \<Rightarrow> real"
  fsin :: "real \<Rightarrow> real"
  fcos :: "real \<Rightarrow> real"
  fsqrt :: "real \<Rightarrow> real"
  fatan2 :: "real \<Rightarrow> real \<Rightarrow> real"

text \<open>
  Overflow does not depend on the platform: an exact result whose magnitude reaches
  \<open>2^1024 - 2^970\<close> (the largest double plus half a unit in its last place) becomes an
  infinity of its sign; a smaller one is rounded.
\<close>

definition overflow_bound :: real where
  "overflow_bound = 2 ^ 1024 - 2 ^ 970"

definition fl :: "fpenv \<Rightarrow> real \<Rightarrow> jsnum" where
  "fl fp r =
     (if overflow_bound \<le> r then PInf
      else if r \<le> - overflow_bound then NInf
      else Fin (rnd fp r))"

text \<open>The binary operators \<open>+\<close>, \<open>-\<close>, \<open>*\<close>, \<open>/\<close> on numbers.\<close>

fun js_add :: "fpenv \<Rightarrow> jsnum \<Rightarrow> jsnum \<Rightarrow> jsnum" where
  "js_add fp NaN _ = NaN"
| "js_add fp _ NaN = NaN"
| "js_add fp (Fin a) (Fin b) = fl fp (a + b)"
| "js_add fp PInf NInf = NaN"
| "js_add fp NInf PInf = NaN"
| "js_add fp PInf _ = PInf"
| "js_add fp _ PInf = PInf"
| "js_add fp NInf _ = NInf"
| "js_add fp _ NInf = NInf"

fun js_sub :: "fpenv \<Rightarrow> jsnum \<Rightarrow> jsnum \<Rightarrow> jsnum" where
  "js_sub fp NaN _ = NaN"
| "js_sub fp _ NaN = NaN"
| "js_sub fp (Fin a) (Fin b) = fl fp (a - b)"
| "js_sub fp PInf PInf = NaN"
| "js_sub fp NInf NInf = NaN"
| "js_sub fp PInf _ = PInf"
| "js_sub fp _ NInf = PInf"
| "js_sub fp NInf _ = NInf"
| "js_sub fp _ PInf = NInf"

definition inf_of_sign :: "bool \<Rightarrow> jsnum" where
  "inf_of_sign positive = (if positive then PInf else NInf)"

fun js_mul :: "fpenv \<Rightarrow> jsnum \<Rightarrow> jsnum \<Rightarrow> jsnum" where
  "js_mul fp NaN _ = NaN"
| "js_mul fp _ NaN = NaN"
| "js_mul fp (Fin a) (Fin b) = fl fp (a * b)"
| "js_mul fp (Fin a) PInf = (if a = 0 then NaN else inf_of_sign (0 < a))"
| "js_mul fp (Fin a) NInf = (if a = 0 then NaN else inf_of_sign (a < 0))"
| "js_mul fp PInf (Fin b) = (if b = 0 then NaN else inf_of_sign (0 < b))"
| "js_mul fp NInf (Fin b) = (if b = 0 then NaN else inf_of_sign (b < 0))"
| "js_mul fp PInf PInf = PInf"
| "js_mul fp NInf NInf = PInf"
| "js_mul fp PInf NInf = NInf"
| "js_mul fp NInf PInf = NInf"

fun js_div :: "fpenv \<Rightarrow> jsnum \<Rightarrow> jsnum \<Rightarrow> jsnum" where
  "js_div fp NaN _ = NaN"
| "js_div fp _ NaN = NaN"
| "js_div fp (Fin a) (Fin b) =
     (if b = 0 then (if a = 0 then NaN else inf_of_sign (0 < a)) else fl fp (a / b))"
| "js_div fp (Fin a) _ = Fin 0"
| "js_div fp PInf (Fin b) = inf_of_sign (0 \<le> b)"
| "js_div fp NInf (Fin b) = inf_of_sign (b < 0)"
| "js_div fp _ _ = NaN"

text \<open>
  The comparisons \<open><\<close>, \<open><=\<close> and \<open>===\<close> are exact on doubles: every comparison with
  NaN is false.
\<close>

fun js_lt :: "jsnum \<Rightarrow> jsnum \<Rightarrow> bool" where
  "js_lt NaN _ = False"
| "js_lt _ NaN = False"
| "js_lt (Fin a) (Fin b) = (a < b)"
| "js_lt _ NInf = False"
| "js_lt NInf _ = True"
| "js_lt PInf _ = False"
| "js_lt _ PInf = True"

fun js_le :: "jsnum \<Rightarrow> jsnum \<Rightarrow> bool" where
  "js_le NaN _ = False"
| "js_le _ NaN = False"
| "js_le (Fin a) (Fin b) = (a \<le> b)"
| "js_le NInf _ = True"
| "js_le _ PInf = True"
| "js_le _ _ = False"

fun js_strict_eq :: "jsnum \<Rightarrow> jsnum \<Rightarrow> bool" where
  "js_strict_eq NaN _ = False"
| "js_strict_eq _ NaN = False"
| "js_strict_eq a b = (a = b)"

text \<open>
  The members of \<open>Math\<close> that the source calls. \<open>Math.PI\<close> is one fixed double,
  \<open>3.141592653589793\<close>, which is \<open>884279719003555 / 2^48\<close>.
\<close>

definition PI_double :: real where
  "PI_double = 884279719003555 / 281474976710656"

definition Math_PI :: jsnum where
  "Math_PI = Fin PI_double"

fun Math_sin :: "fpenv \<Rightarrow> jsnum \<Rightarrow> jsnum" where
  "Math_sin fp (Fin x) = Fin (fsin fp x)"
| "Math_sin fp _ = NaN"

fun Math_cos :: "fpenv \<Rightarrow> jsnum \<Rightarrow> jsnum" where
  "Math_cos fp (Fin x) = Fin (fcos fp x)"
| "Math_cos fp _ = NaN"

fun Math_sqrt :: "fpenv \<Rightarrow> jsnum \<Rightarrow> jsnum" where
  "Math_sqrt fp (Fin x) = (if x < 0 then NaN else Fin (fsqrt fp x))"
| "Math_sqrt fp PInf = PInf"
| "Math_sqrt fp _ = NaN"

text \<open>
  \<open>Math.atan2(y, x)\<close> with an infinite argument is a fixed multiple of \<open>pi / 4\<close>,
  rounded.
\<close>

fun Math_atan2 :: "fpenv \<Rightarrow> jsnum \<Rightarrow> jsnum \<Rightarrow> jsnum" where
  "Math_atan2 fp NaN _ = NaN"
| "Math_atan2 fp _ NaN = NaN"
| "Math_atan2 fp (Fin y) (Fin x) = Fin (fatan2 fp y x)"
| "Math_atan2 fp (Fin y) PInf = Fin 0"
| "Math_atan2 fp (Fin y) NInf = (if 0 \<le> y then Fin (rnd fp pi) else Fin (rnd fp (- pi)))"
| "Math_atan2 fp PInf (Fin x) = Fin (rnd fp (pi / 2))"
| "Math_atan2 fp NInf (Fin x) = Fin (rnd fp (- (pi / 2)))"
| "Math_atan2 fp PInf PInf = Fin (rnd fp (pi / 4))"
| "Math_atan2 fp PInf NInf = Fin (rnd fp (3 * pi / 4))"
| "Math_atan2 fp NInf PInf = Fin (rnd fp (- (pi / 4)))"
| "Math_atan2 fp NInf NInf = Fin (rnd fp (- (3 * pi / 4)))"

text \<open>
  The environment without rounding error: results are exact, the functions are the
  mathematical ones. \<open>atan2 y x\<close> is the angle of the point \<open>(x, y)\<close> in \<open>[-pi, pi]\<close>;
  on the negative x axis it is \<open>pi\<close>, at the origin 0.
\<close>

definition atan2 :: "real \<Rightarrow> real \<Rightarrow> real" where
  "atan2 y x =
     (if 0 < x then arctan (y / x)
      else if x < 0 then (if 0 \<le> y then arctan (y / x) + pi else arctan (y / x) - pi)
      else if 0 < y then pi / 2
      else if y < 0 then - (pi / 2)
      else 0)"

definition exact_fp :: fpenv where
  "exact_fp = \<lparr>rnd = (\<lambda>r. r), fsin = sin, fcos = cos, fsqrt = sqrt, fatan2 = atan2\<rparr>"


section \<open>The distance between two coordinates\<close>

text \<open>
  \<open>getDistance(lat1, lon1, lat2, lon2)\<close>, line by line: the haversine formula with the
  source's constant \<open>R = 6371e3\<close>.
\<close>

definition getDistance :: "fpenv \<Rightarrow> jsnum \<Rightarrow> jsnum \<Rightarrow> jsnum \<Rightarrow> jsnum \<Rightarrow> jsnum" where
  "getDistance fp lat1 lon1 lat2 lon2 =
     (let R = Fin 6371000;
          phi1 = js_div fp (js_mul fp lat1 Math_PI) (Fin 180);
          phi2 = js_div fp (js_mul fp lat2 Math_PI) (Fin 180);
          dphi = js_div fp (js_mul fp (js_sub fp lat2 lat1) Math_PI) (Fin 180);
          dlambda = js_div fp (js_mul fp (js_sub fp lon2 lon1) Math_PI) (Fin 180);
          a = js_add fp
                (js_mul fp (Math_sin fp (js_div fp dphi (Fin 2)))
                           (Math_sin fp (js_div fp dphi (Fin 2))))
                (js_mul fp
                  (js_mul fp
                    (js_mul fp (Math_cos fp phi1) (Math_cos fp phi2))
                    (Math_sin fp (js_div fp dlambda (Fin 2))))
                  (Math_sin fp (js_div fp dlambda (Fin 2))));
          c = js_mul fp (Fin 2)
                (Math_atan2 fp (Math_sqrt fp a) (Math_sqrt fp (js_sub fp (Fin 1) a)))
      in js_mul fp R c)"

text \<open>
  The value of the formula when nothing is rounded: \<open>hav\<close> is what the source calls
  \<open>a\<close>, \<open>distance_m\<close> what it returns.
\<close>

definition hav :: "real \<Rightarrow> real \<Rightarrow> real \<Rightarrow> real \<Rightarrow> real" where
  "hav lat1 lon1 lat2 lon2 =
     sin ((lat2 - lat1) * PI_double / 180 / 2) * sin ((lat2 - lat1) * PI_double / 180 / 2)
     + cos (lat1 * PI_double / 180) * cos (lat2 * PI_double / 180)
       * sin ((lon2 - lon1) * PI_double / 180 / 2) * sin ((lon2 - lon1) * PI_double / 180 / 2)"

definition distance_m :: "real \<Rightarrow> real \<Rightarrow> real \<Rightarrow> real \<Rightarrow> real" where
  "distance_m lat1 lon1 lat2 lon2 =
     6371000 * (2 * atan2 (sqrt (hav lat1 lon1 lat2 lon2)) (sqrt (1 - hav lat1 lon1 lat2 lon2)))"

section \<open>Rendering a rounded number\<close>

text \<open>
  \<open>Math.round(x)\<close> is the integer nearest to \<open>x\<close>, ties going up; the special values
  are returned as they are. It is exact on doubles.
\<close>

fun Math_round :: "jsnum \<Rightarrow> jsnum" where
  "Math_round (Fin x) = Fin (of_int \<lfloor>x + 1 / 2\<rfloor>)"
| "Math_round v = v"

fun show_nat :: "nat \<Rightarrow> string" where
  "show_nat n =
     (if n < 10 then [''0123456789'' ! n]
      else show_nat (n div 10) @ [''0123456789'' ! (n mod 10)])"

declare show_nat.simps [simp del]

text \<open>The decimal digits of an integer, with its sign.\<close>

definition decimal :: "int \<Rightarrow> string" where
  "decimal n = (if n < 0 then ''-'' else []) @ show_nat (nat \<bar>n\<bar>)"

text \<open>
  A number inside a template literal is converted with \<open>Number::toString\<close>. The source
  only ever converts the result of \<open>Math.round\<close>, an integer, so the finite case
  renders the integer part in decimal. (JavaScript switches to exponent notation from
  \<open>10^21\<close> on.)
\<close>

fun js_toString :: "jsnum \<Rightarrow> string" where
  "js_toString (Fin x) = (if x < 0 then ''-'' else []) @ show_nat (nat \<lfloor>\<bar>x\<bar>\<rfloor>)"
| "js_toString PInf = ''Infinity''"
| "js_toString NInf = ''-Infinity''"
| "js_toString NaN = ''NaN''"

section \<open>The data of the tour\<close>

record PointOfInterest =
  poi_id :: int
  name :: string
  lat :: jsnum
  lon :: jsnum
  audioSrc :: string
  description :: string

record LocationState = PointOfInterest +
  played :: bool
  distance :: jsnum

record Coordinates =
  latitude :: jsnum
  longitude :: jsnum

text \<open>The catalog of \<open>src/app/page.tsx\<close> (its first document): three points.\<close>

definition pointsOfInterest :: "PointOfInterest list" where
  "pointsOfInterest =
     [\<lparr>poi_id = 1, name = ''The Old Adams Cabin Site'',
       lat = Fin (46106953 / 1000000), lon = Fin (- (77489467 / 1000000)),
       audioSrc = ''/oldcabin.m4a'',
       description = ''This is where the story of the family cabin unfolds. Listen to memories of growing up by the water.''\<rparr>,
      \<lparr>poi_id = 2, name = ''Approx. Wylie Road Schoolhouse Location'',
       lat = Fin (460997975 / 10000000), lon = Fin (- (774900301 / 10000000)),
       audioSrc = ''/oldcabin.m4a'',
       description = ''Imagine the long walk to the one-room schoolhouse. This audio clip shares what school was like in the 1940s.''\<rparr>,
      \<lparr>poi_id = 3, name = ''Approx. 69 Lange Rd'',
       lat = Fin (461581327 / 10000000), lon = Fin (- (77632293 / 1000000)),
       audioSrc = ''/oldcabin.m4a'',
       description = ''69 Lange Rd''\<rparr>]"

text \<open>
  The catalog of \<open>src/unnamed/part_000\<close> and of the second document of
  \<open>src/app/page.tsx\<close>: the first two points only.
\<close>

definition pointsOfInterest_v2 :: "PointOfInterest list" where
  "pointsOfInterest_v2 = take 2 pointsOfInterest"

definition TRIGGER_RADIUS :: jsnum where
  "TRIGGER_RADIUS = Fin 30"

section \<open>The state of the \<open>Home\<close> component\<close>

text \<open>The two properties of the \<open><audio>\<close> element that the source writes.\<close>

record AudioElement =
  src :: string
  muted :: bool

text \<open>
  One field per \<open>useState\<close> and \<open>useRef\<close> of \<open>Home\<close>. \<open>audioRef = None\<close> is
  \<open>audioRef.current === null\<close>: no audio element is mounted.
\<close>

record Home =
  locations :: "LocationState list"
  currentPosition :: "Coordinates option"
  statusMessage :: string
  activeAudio :: "string option"
  isWatching :: bool
  error :: "string option"
  showAR :: bool
  audioRef :: "AudioElement option"
  watchIdRef :: "int option"

definition initialLocation :: "PointOfInterest \<Rightarrow> LocationState" where
  "initialLocation p =
     \<lparr>poi_id = poi_id p, name = name p, lat = lat p, lon = lon p,
      audioSrc = audioSrc p, description = description p,
      played = False, distance = PInf\<rparr>"

definition initialHome :: "PointOfInterest list \<Rightarrow> AudioElement option \<Rightarrow> Home" where
  "initialHome catalog audio =
     \<lparr>locations = map initialLocation catalog,
      currentPosition = None,
      statusMessage = ''Click 'Start Tour' to begin.'',
      activeAudio = None,
      isWatching = False,
      error = None,
      showAR = False,
      audioRef = audio,
      watchIdRef = None\<rparr>"

section \<open>\<open>processLocationUpdate\<close>\<close>

text \<open>
  The local \<open>nearestPoint\<close> has the type \<open>LocationState | { distance: number }\<close>. Reading
  \<open>name\<close> of the second alternative gives \<open>undefined\<close>, which a template literal
  renders as the text \<open>undefined\<close>.
\<close>

datatype nearest = DistanceOnly jsnum | Nearest LocationState

fun nearest_distance :: "nearest \<Rightarrow> jsnum" where
  "nearest_distance (DistanceOnly d) = d"
| "nearest_distance (Nearest p) = distance p"

fun nearest_name :: "nearest \<Rightarrow> string" where
  "nearest_name (DistanceOnly d) = ''undefined''"
| "nearest_name (Nearest p) = name p"

text \<open>The two locals of \<open>processLocationUpdate\<close> that the callbacks close over.\<close>

record UpdateLocals =
  nearestPoint :: nearest
  didTriggerAudio :: bool

text \<open>
  The callback given to \<open>prevLocations.map\<close>: it returns the new entry of the point and
  writes the locals and, through the setters, the component state. The setters called
  here are \<open>setError\<close>, \<open>setActiveAudio\<close> and \<open>setStatusMessage\<close>; a later call of a setter
  overwrites an earlier one.
\<close>

definition visitPoint ::
  "fpenv \<Rightarrow> Coordinates \<Rightarrow> LocationState \<Rightarrow> UpdateLocals \<times> Home \<Rightarrow> LocationState \<times> (UpdateLocals \<times> Home)"
where
  "visitPoint fp pos point s =
     (let lv = fst s; st = snd s;
          d = getDistance fp (latitude pos) (longitude pos) (lat point) (lon point);
          lv1 = (if js_lt d (nearest_distance (nearestPoint lv))
                 then lv\<lparr>nearestPoint := Nearest (point\<lparr>distance := d\<rparr>)\<rparr>
                 else lv)
      in if js_le d TRIGGER_RADIUS \<and> \<not> played point
         then (point\<lparr>played := True, distance := d\<rparr>,
               (lv1\<lparr>didTriggerAudio := True\<rparr>,
                st\<lparr>error := None,
                   activeAudio := Some (audioSrc point),
                   statusMessage := ''Playing story for: '' @ name point\<rparr>))
         else (point\<lparr>distance := d\<rparr>, (lv1, st)))"

fun mapLocations ::
  "fpenv \<Rightarrow> Coordinates \<Rightarrow> LocationState list \<Rightarrow> UpdateLocals \<times> Home \<Rightarrow> LocationState list \<times> (UpdateLocals \<times> Home)"
where
  "mapLocations fp pos [] s = ([], s)"
| "mapLocations fp pos (point # rest) s =
     (let r = visitPoint fp pos point s;
          rs = mapLocations fp pos rest (snd r)
      in (fst r # fst rs, snd rs))"

definition guidance :: "UpdateLocals \<Rightarrow> Home \<Rightarrow> Home" where
  "guidance lv st =
     (if \<not> didTriggerAudio lv
      then (if js_strict_eq (nearest_distance (nearestPoint lv)) PInf
            then st\<lparr>statusMessage := ''Searching for points of interest...''\<rparr>
            else st\<lparr>statusMessage :=
                      ''Walk towards '' @ nearest_name (nearestPoint lv) @ '' (''
                        @ js_toString (Math_round (nearest_distance (nearestPoint lv)))
                        @ ''m away)''\<rparr>)
      else st)"

definition processLocationUpdate :: "fpenv \<Rightarrow> Coordinates \<Rightarrow> Home \<Rightarrow> Home" where
  "processLocationUpdate fp pos st =
     (let st1 = st\<lparr>currentPosition := Some pos\<rparr>;
          lv0 = \<lparr>nearestPoint = DistanceOnly PInf, didTriggerAudio = False\<rparr>;
          r = mapLocations fp pos (locations st1) (lv0, st1);
          updatedLocations = fst r;
          st2 = guidance (fst (snd r)) (snd (snd r))
      in st2\<lparr>locations := updatedLocations\<rparr>)"

text \<open>A run of the engine: the samples of the stream, in the order they arrive.\<close>

fun processAll :: "fpenv \<Rightarrow> Coordinates list \<Rightarrow> Home \<Rightarrow> Home" where
  "processAll fp [] st = st"
| "processAll fp (pos # rest) st = processAll fp rest (processLocationUpdate fp pos st)"

section \<open>The playback effect\<close>

text \<open>
  \<open>audio.play()\<close> returns a promise that is fulfilled or rejected later, or (in old
  browsers) \<open>undefined\<close>; which of them is decided by the platform.
\<close>

datatype PlayResult = NoPromise | Fulfilled | Rejected

text \<open>\<open>activeAudio && ...\<close>: \<open>null\<close> and the empty string are falsy.\<close>

fun truthy :: "string option \<Rightarrow> bool" where
  "truthy None = False"
| "truthy (Some a) = (a \<noteq> [])"

text \<open>The effect on \<open>activeAudio\<close> of \<open>src/app/page.tsx\<close> (first document).\<close>

definition playbackEffect :: "PlayResult \<Rightarrow> Home \<Rightarrow> Home" where
  "playbackEffect outcome st =
     (case audioRef st of
        None \<Rightarrow> st
      | Some el \<Rightarrow>
          if truthy (activeAudio st)
          then (let st1 = st\<lparr>audioRef := Some (el\<lparr>src := the (activeAudio st)\<rparr>)\<rparr>
                in case outcome of
                     Rejected \<Rightarrow>
                       st1\<lparr>error := Some ''Your browser blocked autoplay. Please press play on the audio player.''\<rparr>
                   | _ \<Rightarrow> st1)
          else st)"

text \<open>
  The same effect in \<open>src/unnamed/part_000\<close> and in the second document of
  \<open>src/app/page.tsx\<close>: it unmutes the element, and on rejection also looks the
  narration up in the catalog to name the point in the status message.
\<close>

definition playbackEffect_v2 :: "PlayResult \<Rightarrow> Home \<Rightarrow> Home" where
  "playbackEffect_v2 outcome st =
     (case audioRef st of
        None \<Rightarrow> st
      | Some el \<Rightarrow>
          if truthy (activeAudio st)
          then (let st1 = st\<lparr>audioRef := Some (el\<lparr>src := the (activeAudio st), muted := False\<rparr>)\<rparr>
                in case outcome of
                     Rejected \<Rightarrow>
                       (let st2 = st1\<lparr>error := Some ''Your browser blocked autoplay. Please press the play button on the audio player below.''\<rparr>
                        in case find (\<lambda>p. audioSrc p = the (activeAudio st)) pointsOfInterest_v2 of
                             Some lastTriggeredPoint \<Rightarrow>
                               st2\<lparr>statusMessage := ''Audio ready for: '' @ name lastTriggeredPoint @ ''. Press play.''\<rparr>
                           | None \<Rightarrow> st2)
                   | _ \<Rightarrow> st1)
          else st)"

section \<open>Starting the tour and the position stream\<close>

text \<open>
  What \<open>getCurrentPosition\<close> and \<open>watchPosition\<close> deliver: a fix, or an error with its
  message (\<open>err.message\<close>).
\<close>

datatype PositionEvent = Position Coordinates | PositionError string

text \<open>
  \<open>handleStartTour\<close> of \<open>src/app/page.tsx\<close> (first document): \<open>supported\<close> is
  \<open>navigator.geolocation\<close> being present, \<open>initial\<close> is what \<open>getCurrentPosition\<close>
  delivers and \<open>watchId\<close> is the identifier returned by \<open>watchPosition\<close>. The muted
  \<open>play()\<close> that unlocks audio leaves the element unmuted; its promise is ignored. (The
  other two versions leave the element muted at this point and are the same otherwise.)
\<close>

definition handleStartTour :: "fpenv \<Rightarrow> bool \<Rightarrow> PositionEvent \<Rightarrow> int \<Rightarrow> Home \<Rightarrow> Home" where
  "handleStartTour fp supported initial watchId st =
     (if \<not> supported
      then st\<lparr>error := Some ''Geolocation is not supported by your browser.''\<rparr>
      else
        (let st1 = (case audioRef st of
                      None \<Rightarrow> st
                    | Some el \<Rightarrow> st\<lparr>audioRef := Some (el\<lparr>muted := False\<rparr>)\<rparr>)
         in case initial of
              Position pos \<Rightarrow>
                (processLocationUpdate fp pos
                   (st1\<lparr>isWatching := True, error := None,
                       statusMessage := ''Location activated. Walking tour started.''\<rparr>))
                \<lparr>watchIdRef := Some watchId\<rparr>
            | PositionError msg \<Rightarrow>
                st1\<lparr>error := Some (''Permission Denied: '' @ msg @ ''. Please enable location services.'')\<rparr>))"

text \<open>The two callbacks registered with \<open>watchPosition\<close>.\<close>

fun watchCallback :: "fpenv \<Rightarrow> PositionEvent \<Rightarrow> Home \<Rightarrow> Home" where
  "watchCallback fp (Position pos) st = processLocationUpdate fp pos st"
| "watchCallback fp (PositionError msg) st = st\<lparr>error := Some (''Location Error: '' @ msg)\<rparr>"

section \<open>The button that launches the AR view\<close>

text \<open>
  Whether the list item of a point shows the button ``Launch AR Experience''. The first
  document of \<open>src/app/page.tsx\<close> renders it under \<open>point.played\<close>, the second under
  \<open>point.id === 1 && point.played && !showAR\<close>.
\<close>

definition launchARButton :: "LocationState \<Rightarrow> bool" where
  "launchARButton point = played point"

definition launchARButton_v2 :: "bool \<Rightarrow> LocationState \<Rightarrow> bool" where
  "launchARButton_v2 ar point = (poi_id point = 1 \<and> played point \<and> \<not> ar)"

definition arOffered :: "Home \<Rightarrow> bool" where
  "arOffered st = list_ex launchARButton (locations st)"

definition arOffered_v2 :: "Home \<Rightarrow> bool" where
  "arOffered_v2 st = list_ex (launchARButton_v2 (showAR st)) (locations st)"

section \<open>Notions used to state the properties\<close>

text \<open>The distance that an update computes for a point.\<close>

definition distanceTo :: "fpenv \<Rightarrow> Coordinates \<Rightarrow> LocationState \<Rightarrow> jsnum" where
  "distanceTo fp pos point = getDistance fp (latitude pos) (longitude pos) (lat point) (lon point)"

text \<open>
  The condition of the branch that marks a point as played: within the radius and not
  played when the update starts.
\<close>

definition triggers :: "fpenv \<Rightarrow> Coordinates \<Rightarrow> LocationState \<Rightarrow> bool" where
  "triggers fp pos point = (js_le (distanceTo fp pos point) TRIGGER_RADIUS \<and> \<not> played point)"

text \<open>The entry that the \<open>map\<close> callback returns for a point.\<close>

definition visited :: "fpenv \<Rightarrow> Coordinates \<Rightarrow> LocationState \<Rightarrow> LocationState" where
  "visited fp pos point =
     point\<lparr>played := (played point \<or> js_le (distanceTo fp pos point) TRIGGER_RADIUS),
           distance := distanceTo fp pos point\<rparr>"

text \<open>The three setter calls of that branch.\<close>

definition announce :: "LocationState \<Rightarrow> Home \<Rightarrow> Home" where
  "announce point st =
     st\<lparr>error := None, activeAudio := Some (audioSrc point),
        statusMessage := ''Playing story for: '' @ name point\<rparr>"

text \<open>The value of \<open>nearestPoint\<close> after the callback has run on a list of points.\<close>

fun trackNearest :: "fpenv \<Rightarrow> Coordinates \<Rightarrow> LocationState list \<Rightarrow> nearest \<Rightarrow> nearest" where
  "trackNearest fp pos [] n = n"
| "trackNearest fp pos (point # rest) n =
     trackNearest fp pos rest
       (if js_lt (distanceTo fp pos point) (nearest_distance n)
        then Nearest (point\<lparr>distance := distanceTo fp pos point\<rparr>) else n)"

text \<open>
  Index \<open>i\<close> is the first point at the least distance: its distance is below the
  sentinel, no point is nearer, and no earlier point is as near.
\<close>

definition firstNearest :: "fpenv \<Rightarrow> Coordinates \<Rightarrow> LocationState list \<Rightarrow> nat \<Rightarrow> bool" where
  "firstNearest fp pos ps i =
     (i < length ps \<and> js_lt (distanceTo fp pos (ps ! i)) PInf \<and>
      (\<forall>j < length ps. \<not> js_lt (distanceTo fp pos (ps ! j)) (distanceTo fp pos (ps ! i))) \<and>
      (\<forall>j < i. \<not> js_le (distanceTo fp pos (ps ! j)) (distanceTo fp pos (ps ! i))))"

text \<open>
  The length in metres of an arc of \<open>deg\<close> degrees on the sphere of the source, with the
  source's value of \<open>Math.PI\<close>.
\<close>

definition arc_m :: "real \<Rightarrow> real" where
  "arc_m deg = 6371000 * (\<bar>deg\<bar> * PI_double / 180)"

section \<open>Example tours\<close>

text \<open>
  Small catalogs on the prime meridian, used to run the update on concrete samples:
  \<open>poiA\<close> at the origin, \<open>poiB\<close> about 11 m north of it, \<open>poiNorth\<close> and \<open>poiSouth\<close> one
  degree (about 111 km) to either side. The runs on them are computed in \<open>exact_fp\<close>;
  their distances (0, 11.12, 111194.93 and 222389.85 m) are far from the trigger radius
  and from a half metre, so that a rounding error in the last place changes neither a
  comparison nor a rounded distance.
\<close>

definition origin :: Coordinates where
  "origin = \<lparr>latitude = Fin 0, longitude = Fin 0\<rparr>"

definition poiA :: PointOfInterest where
  "poiA = \<lparr>poi_id = 1, name = ''A'', lat = Fin 0, lon = Fin 0,
           audioSrc = ''/a.m4a'', description = ''first''\<rparr>"

definition poiB :: PointOfInterest where
  "poiB = \<lparr>poi_id = 2, name = ''B'', lat = Fin (1 / 10000), lon = Fin 0,
           audioSrc = ''/b.m4a'', description = ''second''\<rparr>"

definition poiNorth :: PointOfInterest where
  "poiNorth = \<lparr>poi_id = 1, name = ''North'', lat = Fin 1, lon = Fin 0,
           audioSrc = ''/north.m4a'', description = ''one degree north''\<rparr>"

definition poiSouth :: PointOfInterest where
  "poiSouth = \<lparr>poi_id = 2, name = ''South'', lat = Fin (- 1), lon = Fin 0,
           audioSrc = ''/south.m4a'', description = ''one degree south''\<rparr>"

text \<open>A point two degrees south of the origin.\<close>

definition poiFarSouth :: PointOfInterest where
  "poiFarSouth = \<lparr>poi_id = 3, name = ''FarSouth'', lat = Fin (- 2), lon = Fin 0,
           audioSrc = ''/farsouth.m4a'', description = ''two degrees south''\<rparr>"


text \<open>A sample whose latitude is NaN.\<close>

definition nanSample :: Coordinates where
  "nanSample = \<lparr>latitude = NaN, longitude = Fin (- (77489467 / 1000000))\<rparr>"

text \<open>An audio element with no source loaded.\<close>

definition player :: AudioElement where
  "player = \<lparr>src = [], muted = False\<rparr>"

section \<open>Properties of the arithmetic\<close>

lemma overflow_bound_large: "10 ^ 302 < overflow_bound"
  by (simp add: overflow_bound_def)

lemma one_lt_overflow_bound: "1 < overflow_bound"
  by (simp add: overflow_bound_def)


lemma lt_overflow: "\<bar>r\<bar> \<le> 10 ^ 302 \<Longrightarrow> \<bar>r\<bar> < overflow_bound"
  by (erule order.strict_trans1) (rule overflow_bound_large)

lemma unit_lt_overflow: "\<bar>r\<bar> \<le> 1 \<Longrightarrow> \<bar>r\<bar> < overflow_bound"
  by (erule order.strict_trans1) (rule one_lt_overflow_bound)

lemma nonzero_divisors: "((180::real) = 0) = False" "((2::real) = 0) = False"
  by simp_all

lemma PI_double_bounds: "0 < PI_double" "PI_double \<le> 4"
  by (simp_all add: PI_double_def)

lemma fl_exact: "\<bar>r\<bar> < overflow_bound \<Longrightarrow> fl exact_fp r = Fin r"
  by (auto simp add: fl_def exact_fp_def)

lemma fl_exact_small: "\<bar>r\<bar> \<le> 10 ^ 302 \<Longrightarrow> fl exact_fp r = Fin r"
  by (rule fl_exact) (rule lt_overflow)

lemma fl_exact_unit: "\<bar>r\<bar> \<le> 1 \<Longrightarrow> fl exact_fp r = Fin r"
  by (rule fl_exact) (rule unit_lt_overflow)




lemma inf_of_sign_neg: "js_neg (inf_of_sign b) = inf_of_sign (\<not> b)"
  by (simp add: inf_of_sign_def)







lemma js_mul_NaN_right: "js_mul fp a NaN = NaN"
  by (cases a) simp_all

lemma js_add_NaN_right: "js_add fp a NaN = NaN"
  by (cases a) simp_all

section \<open>Properties of the distance\<close>










lemma getDistance_nonfinite:
  assumes "\<not> isFinite lat1 \<or> \<not> isFinite lon1"
  shows "getDistance fp lat1 lon1 lat2 lon2 = NaN"
proof -
  have a: "\<not> isFinite lat1 \<Longrightarrow>
     Math_sin fp (js_div fp (js_div fp (js_mul fp (js_sub fp lat2 lat1) Math_PI) (Fin 180)) (Fin 2)) = NaN"
    using PI_double_bounds(1)
    by (cases lat1; cases lat2) (simp_all add: Math_PI_def inf_of_sign_def)
  have b: "\<not> isFinite lon1 \<Longrightarrow>
     Math_sin fp (js_div fp (js_div fp (js_mul fp (js_sub fp lon2 lon1) Math_PI) (Fin 180)) (Fin 2)) = NaN"
    using PI_double_bounds(1)
    by (cases lon1; cases lon2) (simp_all add: Math_PI_def inf_of_sign_def)
  from assms show ?thesis
  proof
    assume "\<not> isFinite lat1"
    then show ?thesis by (simp add: getDistance_def Let_def a js_mul_NaN_right)
  next
    assume "\<not> isFinite lon1"
    then show ?thesis by (simp add: getDistance_def Let_def b js_mul_NaN_right js_add_NaN_right)
  qed
qed

subsection \<open>The value without rounding\<close>

lemma hav_sym: "hav lat1 lon1 lat2 lon2 = hav lat2 lon2 lat1 lon1"
proof -
  have p: "(lat1 - lat2) * PI_double / 180 / 2 = - ((lat2 - lat1) * PI_double / 180 / 2)"
    by (simp add: field_simps)
  have q: "(lon1 - lon2) * PI_double / 180 / 2 = - ((lon2 - lon1) * PI_double / 180 / 2)"
    by (simp add: field_simps)
  show ?thesis
    unfolding hav_def p q sin_minus by (simp add: mult.commute)
qed

lemma hav_same: "hav la lo la lo = 0"
  by (simp add: hav_def)

lemma cos_half_cos: "(cos t + 1) / 2 = cos (t / 2) * cos (t / 2)" for t :: real
proof -
  have "cos t = cos (2 * (t / 2))" by simp
  also have "\<dots> = 2 * (cos (t / 2) * cos (t / 2)) - 1"
    unfolding cos_double_cos by (simp add: power2_eq_square)
  finally show ?thesis by simp
qed

lemma cos_half_sin: "(cos t - 1) / 2 = - (sin (t / 2) * sin (t / 2))" for t :: real
proof -
  have "cos t = cos (2 * (t / 2))" by simp
  also have "\<dots> = 1 - 2 * (sin (t / 2) * sin (t / 2))"
    unfolding cos_double_sin by (simp add: power2_eq_square)
  finally show ?thesis by simp
qed

lemma cos_prod_le: "cos x * cos y \<le> cos ((y - x) / 2) * cos ((y - x) / 2)" for x y :: real
proof -
  have "cos x * cos y = cos y * cos x" by (rule mult.commute)
  also have "\<dots> = (cos (y - x) + cos (y + x)) / 2" by (rule cos_times_cos)
  also have "\<dots> \<le> (cos (y - x) + 1) / 2" by simp
  finally show ?thesis unfolding cos_half_cos .
qed

lemma cos_prod_ge: "- (sin ((y - x) / 2) * sin ((y - x) / 2)) \<le> cos x * cos y" for x y :: real
proof -
  have "(cos (y - x) - 1) / 2 \<le> (cos (y - x) + cos (y + x)) / 2" by simp
  also have "\<dots> = cos y * cos x" by (rule cos_times_cos[symmetric])
  also have "\<dots> = cos x * cos y" by (rule mult.commute)
  finally show ?thesis unfolding cos_half_sin .
qed

lemma sin_sq_le_one: "sin v * sin v \<le> 1" for v :: real
  using sin_squared_eq[of v] zero_le_power2[of "cos v"] by (simp add: power2_eq_square)

lemma hav_alt:
  "hav lat1 lon1 lat2 lon2 =
     sin ((lat2 * PI_double / 180 - lat1 * PI_double / 180) / 2)
       * sin ((lat2 * PI_double / 180 - lat1 * PI_double / 180) / 2)
     + cos (lat1 * PI_double / 180) * cos (lat2 * PI_double / 180)
       * (sin ((lon2 - lon1) * PI_double / 180 / 2) * sin ((lon2 - lon1) * PI_double / 180 / 2))"
proof -
  have e: "(lat2 - lat1) * PI_double / 180 / 2 = (lat2 * PI_double / 180 - lat1 * PI_double / 180) / 2"
    by (simp add: field_simps)
  show ?thesis unfolding hav_def e by (simp only: mult.assoc)
qed

lemma hav_nonneg: "0 \<le> hav lat1 lon1 lat2 lon2"
proof -
  define x where "x = lat1 * PI_double / 180"
  define y where "y = lat2 * PI_double / 180"
  define W where "W = sin ((lon2 - lon1) * PI_double / 180 / 2) * sin ((lon2 - lon1) * PI_double / 180 / 2)"
  define S where "S = sin ((y - x) / 2) * sin ((y - x) / 2)"
  have h: "hav lat1 lon1 lat2 lon2 = S + cos x * cos y * W"
    unfolding hav_alt x_def y_def W_def S_def ..
  have W0: "0 \<le> W" and W1: "W \<le> 1" and S0: "0 \<le> S"
    unfolding W_def S_def by (simp_all add: sin_sq_le_one)
  have "- S \<le> cos x * cos y" unfolding S_def by (rule cos_prod_ge)
  then have "- S * W \<le> cos x * cos y * W" using W0 by (rule mult_right_mono)
  moreover have "S * W \<le> S * 1" using W1 S0 by (rule mult_left_mono)
  ultimately show ?thesis unfolding h by simp
qed

lemma hav_le_one: "hav lat1 lon1 lat2 lon2 \<le> 1"
proof -
  define x where "x = lat1 * PI_double / 180"
  define y where "y = lat2 * PI_double / 180"
  define W where "W = sin ((lon2 - lon1) * PI_double / 180 / 2) * sin ((lon2 - lon1) * PI_double / 180 / 2)"
  define S where "S = sin ((y - x) / 2) * sin ((y - x) / 2)"
  define C where "C = cos ((y - x) / 2) * cos ((y - x) / 2)"
  have h: "hav lat1 lon1 lat2 lon2 = S + cos x * cos y * W"
    unfolding hav_alt x_def y_def W_def S_def ..
  have W0: "0 \<le> W" and W1: "W \<le> 1" and C0: "0 \<le> C"
    unfolding W_def C_def by (simp_all add: sin_sq_le_one)
  have "cos x * cos y \<le> C" unfolding C_def by (rule cos_prod_le)
  then have "cos x * cos y * W \<le> C * W" using W0 by (rule mult_right_mono)
  moreover have "C * W \<le> C * 1" using W1 C0 by (rule mult_left_mono)
  moreover have "S + C = 1"
    unfolding S_def C_def using sin_cos_squared_add[of "(y - x) / 2"] by (simp add: power2_eq_square)
  ultimately show ?thesis unfolding h by simp
qed

lemma atan2_arcsin:
  assumes "0 \<le> a" "a \<le> 1"
  shows "atan2 (sqrt a) (sqrt (1 - a)) = arcsin (sqrt a)"
proof (cases "a = 1")
  case True
  then show ?thesis by (simp add: atan2_def)
next
  case False
  with assms have lt: "a < 1" by simp
  then have pos: "0 < sqrt (1 - a)" by simp
  have s1: "sqrt a < 1" using lt assms by simp
  have s0: "0 \<le> sqrt a" using assms by simp
  have sm: "- 1 < sqrt a" "- 1 \<le> sqrt a" "sqrt a \<le> 1" using s0 s1 by linarith+
  let ?t = "arcsin (sqrt a)"
  have b: "- (pi / 2) < ?t \<and> ?t < pi / 2"
    using sm s1 by (intro arcsin_lt_bounded)
  have "sin ?t = sqrt a" using sm by (intro sin_arcsin)
  moreover have "cos ?t = sqrt (1 - (sqrt a)\<^sup>2)" using sm by (intro cos_arcsin)
  ultimately have "tan ?t = sqrt a / sqrt (1 - a)" using assms by (simp add: tan_def)
  then have "arctan (sqrt a / sqrt (1 - a)) = ?t" using b arctan_tan[of ?t] by simp
  then show ?thesis using pos by (simp add: atan2_def)
qed

lemma distance_m_arcsin:
  "distance_m lat1 lon1 lat2 lon2 = 6371000 * (2 * arcsin (sqrt (hav lat1 lon1 lat2 lon2)))"
  unfolding distance_m_def using atan2_arcsin[OF hav_nonneg hav_le_one] by simp

lemma arcsin_sqrt_hav_bounds:
  "0 \<le> arcsin (sqrt (hav lat1 lon1 lat2 lon2))" "arcsin (sqrt (hav lat1 lon1 lat2 lon2)) \<le> 2"
proof -
  let ?a = "hav lat1 lon1 lat2 lon2"
  have r: "0 \<le> sqrt ?a" "sqrt ?a \<le> 1"
    using hav_nonneg[of lat1 lon1 lat2 lon2] hav_le_one[of lat1 lon1 lat2 lon2] by simp_all
  then have m: "- 1 \<le> sqrt ?a" by linarith
  show "0 \<le> arcsin (sqrt ?a)" using r by (intro arcsin_nonneg) simp
  have "arcsin (sqrt ?a) \<le> pi / 2" using arcsin_bounded[OF m r(2)] by simp
  also have "\<dots> \<le> 2" using pi_half_less_two by simp
  finally show "arcsin (sqrt ?a) \<le> 2" .
qed

text \<open>
  With coordinates of magnitude up to \<open>10^300\<close> no step of the exact computation
  overflows, and the result is \<open>distance_m\<close>.
\<close>

lemma scaled_small:
  assumes "\<bar>x\<bar> \<le> 2 * 10 ^ 300"
  shows "\<bar>x * PI_double\<bar> \<le> 10 ^ 302" "\<bar>x * PI_double / 180\<bar> \<le> 10 ^ 302"
    "\<bar>x * PI_double / 180 / 2\<bar> \<le> 10 ^ 302"
proof -
  have "\<bar>x * PI_double\<bar> \<le> (2 * 10 ^ 300) * 4"
    unfolding abs_mult using assms PI_double_bounds by (intro mult_mono) simp_all
  also have "(2 * 10 ^ 300) * 4 \<le> (10 ^ 302 :: real)" by simp
  finally show a: "\<bar>x * PI_double\<bar> \<le> 10 ^ 302" .
  have "\<bar>x * PI_double / 180\<bar> \<le> \<bar>x * PI_double\<bar>" by (simp add: field_simps)
  then show b: "\<bar>x * PI_double / 180\<bar> \<le> 10 ^ 302" using a by (rule order.trans)
  have "\<bar>x * PI_double / 180 / 2\<bar> \<le> \<bar>x * PI_double / 180\<bar>" by (simp add: field_simps)
  then show "\<bar>x * PI_double / 180 / 2\<bar> \<le> 10 ^ 302" using b by (rule order.trans)
qed

lemma angle_exact:
  assumes "\<bar>x\<bar> \<le> 10 ^ 300"
  shows "js_div exact_fp (js_mul exact_fp (Fin x) Math_PI) (Fin 180) = Fin (x * PI_double / 180)"
proof -
  have "\<bar>x\<bar> \<le> 2 * 10 ^ 300" using assms by simp
  note s = scaled_small[OF this]
  show ?thesis
    by (simp only: Math_PI_def js_mul.simps js_div.simps nonzero_divisors if_False
          fl_exact_small[OF s(1)] fl_exact_small[OF s(2)])
qed

lemma half_angle_exact:
  assumes "\<bar>u\<bar> \<le> 10 ^ 300" "\<bar>v\<bar> \<le> 10 ^ 300"
  shows "js_div exact_fp
           (js_div exact_fp (js_mul exact_fp (js_sub exact_fp (Fin u) (Fin v)) Math_PI) (Fin 180))
           (Fin 2)
       = Fin ((u - v) * PI_double / 180 / 2)"
proof -
  have "\<bar>u - v\<bar> \<le> \<bar>u\<bar> + \<bar>v\<bar>" by (rule abs_triangle_ineq4)
  also have "\<dots> \<le> 10 ^ 300 + 10 ^ 300" using assms by (rule add_mono)
  finally have d: "\<bar>u - v\<bar> \<le> 2 * 10 ^ 300" by simp
  have "(2 * 10 ^ 300 :: real) \<le> 10 ^ 302" by simp
  with d have d': "\<bar>u - v\<bar> \<le> 10 ^ 302" by (rule order.trans)
  note s = scaled_small[OF d]
  show ?thesis
    by (simp only: Math_PI_def js_sub.simps js_mul.simps js_div.simps nonzero_divisors if_False
          fl_exact_small[OF d'] fl_exact_small[OF s(1)] fl_exact_small[OF s(2)]
          fl_exact_small[OF s(3)])
qed

lemma unit_product: "\<bar>x\<bar> \<le> 1 \<Longrightarrow> \<bar>y\<bar> \<le> 1 \<Longrightarrow> \<bar>x * y\<bar> \<le> 1" for x y :: real
proof -
  assume "\<bar>x\<bar> \<le> 1" "\<bar>y\<bar> \<le> 1"
  then have "\<bar>x * y\<bar> \<le> 1 * 1" unfolding abs_mult by (intro mult_mono) simp_all
  then show ?thesis by simp
qed

lemma getDistance_exact:
  assumes "\<bar>lat1\<bar> \<le> 10 ^ 300" "\<bar>lon1\<bar> \<le> 10 ^ 300" "\<bar>lat2\<bar> \<le> 10 ^ 300" "\<bar>lon2\<bar> \<le> 10 ^ 300"
  shows "getDistance exact_fp (Fin lat1) (Fin lon1) (Fin lat2) (Fin lon2)
           = Fin (distance_m lat1 lon1 lat2 lon2)"
proof -
  define sp where "sp = sin ((lat2 - lat1) * PI_double / 180 / 2)"
  define sl where "sl = sin ((lon2 - lon1) * PI_double / 180 / 2)"
  define c1 where "c1 = cos (lat1 * PI_double / 180)"
  define c2 where "c2 = cos (lat2 * PI_double / 180)"
  define a where "a = hav lat1 lon1 lat2 lon2"
  have u: "\<bar>sp\<bar> \<le> 1" "\<bar>sl\<bar> \<le> 1" "\<bar>c1\<bar> \<le> 1" "\<bar>c2\<bar> \<le> 1"
    unfolding sp_def sl_def c1_def c2_def by simp_all
  have h: "sp * sp + c1 * c2 * sl * sl = a"
    unfolding a_def hav_def sp_def sl_def c1_def c2_def ..
  have sines: "Math_sin exact_fp (Fin x) = Fin (sin x)" "Math_cos exact_fp (Fin x) = Fin (cos x)" for x
    by (simp_all add: exact_fp_def)
  have t1: "js_mul exact_fp (Fin sp) (Fin sp) = Fin (sp * sp)"
    by (simp only: js_mul.simps fl_exact_unit[OF unit_product[OF u(1) u(1)]])
  have b2: "\<bar>c1 * c2\<bar> \<le> 1" by (rule unit_product) (rule u)+
  have t2: "js_mul exact_fp (Fin c1) (Fin c2) = Fin (c1 * c2)"
    by (simp only: js_mul.simps fl_exact_unit[OF b2])
  have b3: "\<bar>c1 * c2 * sl\<bar> \<le> 1" by (rule unit_product) (rule b2 u)+
  have t3: "js_mul exact_fp (Fin (c1 * c2)) (Fin sl) = Fin (c1 * c2 * sl)"
    by (simp only: js_mul.simps fl_exact_unit[OF b3])
  have b4: "\<bar>c1 * c2 * sl * sl\<bar> \<le> 1" by (rule unit_product) (rule b3 u)+
  have t4: "js_mul exact_fp (Fin (c1 * c2 * sl)) (Fin sl) = Fin (c1 * c2 * sl * sl)"
    by (simp only: js_mul.simps fl_exact_unit[OF b4])
  have a0: "0 \<le> a" and a1: "a \<le> 1"
    unfolding a_def by (rule hav_nonneg hav_le_one)+
  have ab: "\<bar>a\<bar> \<le> 1" "\<bar>1 - a\<bar> \<le> 1" using a0 a1 by simp_all
  have t5: "js_add exact_fp (Fin (sp * sp)) (Fin (c1 * c2 * sl * sl)) = Fin a"
    by (simp only: js_add.simps h fl_exact_unit[OF ab(1)])
  have t6: "js_sub exact_fp (Fin 1) (Fin a) = Fin (1 - a)"
    by (simp only: js_sub.simps fl_exact_unit[OF ab(2)])
  have t7: "Math_sqrt exact_fp (Fin a) = Fin (sqrt a)"
    "Math_sqrt exact_fp (Fin (1 - a)) = Fin (sqrt (1 - a))"
    using a0 a1 by (simp_all add: exact_fp_def)
  have t8: "Math_atan2 exact_fp (Fin (sqrt a)) (Fin (sqrt (1 - a))) = Fin (atan2 (sqrt a) (sqrt (1 - a)))"
    by (simp add: exact_fp_def)
  define t where "t = atan2 (sqrt a) (sqrt (1 - a))"
  have tb: "0 \<le> t" "t \<le> 2"
    unfolding t_def a_def atan2_arcsin[OF hav_nonneg hav_le_one] by (rule arcsin_sqrt_hav_bounds)+
  have "\<bar>2 * t\<bar> \<le> 2 * 2" using tb by simp
  also have "\<dots> \<le> (10 ^ 302 :: real)" by simp
  finally have t9: "js_mul exact_fp (Fin 2) (Fin t) = Fin (2 * t)"
    by (simp only: js_mul.simps fl_exact_small)
  have "\<bar>6371000 * (2 * t)\<bar> \<le> 6371000 * (2 * 2)" using tb by simp
  also have "\<dots> \<le> (10 ^ 302 :: real)" by simp
  finally have t10: "js_mul exact_fp (Fin 6371000) (Fin (2 * t)) = Fin (6371000 * (2 * t))"
    by (simp only: js_mul.simps fl_exact_small)
  have "getDistance exact_fp (Fin lat1) (Fin lon1) (Fin lat2) (Fin lon2) = Fin (6371000 * (2 * t))"
    unfolding getDistance_def Let_def angle_exact[OF assms(1)] angle_exact[OF assms(3)]
      half_angle_exact[OF assms(3) assms(1)] half_angle_exact[OF assms(4) assms(2)] sines
      sp_def[symmetric] sl_def[symmetric] c1_def[symmetric] c2_def[symmetric]
      t1 t2 t3 t4 t5 t6 t7 t8 t_def[symmetric] t9 t10 ..
  then show ?thesis unfolding distance_m_def t_def a_def .
qed






section \<open>Properties of the update\<close>

lemma visitPoint_fst: "fst (visitPoint fp pos p s) = visited fp pos p"
proof (cases "js_le (distanceTo fp pos p) TRIGGER_RADIUS")
  case True
  then show ?thesis
    by (cases "played p") (auto simp add: visitPoint_def visited_def distanceTo_def Let_def)
next
  case False
  then show ?thesis
    by (simp add: visitPoint_def visited_def distanceTo_def Let_def)
qed

lemma mapLocations_fst: "fst (mapLocations fp pos ps s) = map (visited fp pos) ps"
  by (induction ps arbitrary: s) (simp_all add: Let_def visitPoint_fst)

lemma visitPoint_nearest:
  "nearestPoint (fst (snd (visitPoint fp pos p s))) =
     (if js_lt (distanceTo fp pos p) (nearest_distance (nearestPoint (fst s)))
      then Nearest (p\<lparr>distance := distanceTo fp pos p\<rparr>) else nearestPoint (fst s))"
  by (simp add: visitPoint_def distanceTo_def Let_def)

lemma mapLocations_nearest:
  "nearestPoint (fst (snd (mapLocations fp pos ps s))) = trackNearest fp pos ps (nearestPoint (fst s))"
  by (induction ps arbitrary: s) (simp_all add: Let_def visitPoint_nearest)

lemma visitPoint_didTrigger:
  "didTriggerAudio (fst (snd (visitPoint fp pos p s))) = (didTriggerAudio (fst s) \<or> triggers fp pos p)"
  by (auto simp add: visitPoint_def distanceTo_def triggers_def Let_def)

lemma mapLocations_didTrigger:
  "didTriggerAudio (fst (snd (mapLocations fp pos ps s)))
     = (didTriggerAudio (fst s) \<or> list_ex (triggers fp pos) ps)"
  by (induction ps arbitrary: s) (simp_all add: Let_def visitPoint_didTrigger)

lemma visitPoint_state:
  "snd (snd (visitPoint fp pos p s)) = (if triggers fp pos p then announce p (snd s) else snd s)"
  by (simp add: visitPoint_def distanceTo_def triggers_def announce_def Let_def)

lemma find_append:
  "find P (xs @ ys) = (case find P xs of None \<Rightarrow> find P ys | Some x \<Rightarrow> Some x)"
  by (induction xs) simp_all

lemma announce_announce: "announce q (announce p st) = announce q st"
  by (simp add: announce_def)

lemma mapLocations_state:
  "snd (snd (mapLocations fp pos ps s))
     = (case find (triggers fp pos) (rev ps) of None \<Rightarrow> snd s | Some p \<Rightarrow> announce p (snd s))"
proof (induction ps arbitrary: s)
  case Nil
  then show ?case by simp
next
  case (Cons p ps)
  show ?case
    by (simp add: Let_def Cons.IH visitPoint_state find_append announce_announce
        split: option.splits)
qed


lemma js_lt_irrefl: "\<not> js_lt a a"
  by (cases a) simp_all

lemma js_lt_trans: "js_lt a b \<Longrightarrow> js_lt b c \<Longrightarrow> js_lt a c"
  by (cases a; cases b; cases c) simp_all

lemma js_le_lt_trans: "js_le a b \<Longrightarrow> js_lt b c \<Longrightarrow> js_lt a c"
  by (cases a; cases b; cases c) simp_all

lemma js_le_iff: "js_le a b = (js_lt a b \<or> (a = b \<and> a \<noteq> NaN))"
  by (cases a; cases b) auto

lemma js_lt_total: "a \<noteq> NaN \<Longrightarrow> b \<noteq> NaN \<Longrightarrow> \<not> js_lt a b \<Longrightarrow> \<not> js_lt b a \<Longrightarrow> a = b"
  by (cases a; cases b) auto

lemma js_lt_not_NaN: "js_lt a b \<Longrightarrow> a \<noteq> NaN \<and> b \<noteq> NaN"
  by (cases a; cases b) auto

lemma trackNearest_append:
  "trackNearest fp pos (xs @ ys) n = trackNearest fp pos ys (trackNearest fp pos xs n)"
  by (induction xs arbitrary: n) simp_all

lemma trackNearest_inv:
  "(trackNearest fp pos ps (DistanceOnly PInf) = DistanceOnly PInf \<and>
      (\<forall>j < length ps. \<not> js_lt (distanceTo fp pos (ps ! j)) PInf))
   \<or> (\<exists>i. firstNearest fp pos ps i \<and>
        trackNearest fp pos ps (DistanceOnly PInf)
          = Nearest ((ps ! i)\<lparr>distance := distanceTo fp pos (ps ! i)\<rparr>))"
proof (induction ps rule: rev_induct)
  case Nil
  then show ?case by simp
next
  case (snoc x xs)
  let ?d = "\<lambda>q. distanceTo fp pos q"
  let ?f = "trackNearest fp pos xs (DistanceOnly PInf)"
  have step: "trackNearest fp pos (xs @ [x]) (DistanceOnly PInf)
      = (if js_lt (?d x) (nearest_distance ?f) then Nearest (x\<lparr>distance := ?d x\<rparr>) else ?f)"
    by (simp add: trackNearest_append)
  from snoc.IH show ?case
  proof
    assume A: "?f = DistanceOnly PInf \<and> (\<forall>j < length xs. \<not> js_lt (?d (xs ! j)) PInf)"
    show ?thesis
    proof (cases "js_lt (?d x) PInf")
      case True
      have "firstNearest fp pos (xs @ [x]) (length xs)"
        unfolding firstNearest_def
      proof (intro conjI allI impI)
        show "length xs < length (xs @ [x])" by simp
        show "js_lt (?d ((xs @ [x]) ! length xs)) PInf" using True by simp
      next
        fix j assume "j < length (xs @ [x])"
        then consider "j < length xs" | "j = length xs" by fastforce
        then show "\<not> js_lt (?d ((xs @ [x]) ! j)) (?d ((xs @ [x]) ! length xs))"
        proof cases
          case 1
          then have "\<not> js_lt (?d (xs ! j)) PInf" using A by simp
          then have "\<not> js_lt (?d (xs ! j)) (?d x)" using True js_lt_trans by blast
          then show ?thesis using 1 by (simp add: nth_append)
        next
          case 2
          then show ?thesis by (simp add: js_lt_irrefl)
        qed
      next
        fix j assume j: "j < length xs"
        then have "\<not> js_lt (?d (xs ! j)) PInf" using A by simp
        then have "\<not> js_le (?d (xs ! j)) (?d x)" using True js_le_lt_trans by blast
        then show "\<not> js_le (?d ((xs @ [x]) ! j)) (?d ((xs @ [x]) ! length xs))"
          using j by (simp add: nth_append)
      qed
      moreover have "trackNearest fp pos (xs @ [x]) (DistanceOnly PInf)
          = Nearest (((xs @ [x]) ! length xs)\<lparr>distance := ?d ((xs @ [x]) ! length xs)\<rparr>)"
        using True A by (simp add: step)
      ultimately show ?thesis by blast
    next
      case False
      have "trackNearest fp pos (xs @ [x]) (DistanceOnly PInf) = DistanceOnly PInf"
        using False A by (simp add: step)
      moreover have "\<forall>j < length (xs @ [x]). \<not> js_lt (?d ((xs @ [x]) ! j)) PInf"
        using False A by (auto simp add: nth_append less_Suc_eq)
      ultimately show ?thesis by blast
    qed
  next
    assume "\<exists>i. firstNearest fp pos xs i \<and> ?f = Nearest ((xs ! i)\<lparr>distance := ?d (xs ! i)\<rparr>)"
    then obtain i where fn: "firstNearest fp pos xs i"
      and f: "?f = Nearest ((xs ! i)\<lparr>distance := ?d (xs ! i)\<rparr>)" by blast
    have i: "i < length xs" and fin: "js_lt (?d (xs ! i)) PInf"
      and mn: "\<And>j. j < length xs \<Longrightarrow> \<not> js_lt (?d (xs ! j)) (?d (xs ! i))"
      and fst: "\<And>j. j < i \<Longrightarrow> \<not> js_le (?d (xs ! j)) (?d (xs ! i))"
      using fn unfolding firstNearest_def by blast+
    have nd: "nearest_distance ?f = ?d (xs ! i)" by (simp add: f)
    show ?thesis
    proof (cases "js_lt (?d x) (?d (xs ! i))")
      case True
      have "firstNearest fp pos (xs @ [x]) (length xs)"
        unfolding firstNearest_def
      proof (intro conjI allI impI)
        show "length xs < length (xs @ [x])" by simp
        show "js_lt (?d ((xs @ [x]) ! length xs)) PInf"
          using True fin js_lt_trans by auto
      next
        fix j assume "j < length (xs @ [x])"
        then consider "j < length xs" | "j = length xs" by fastforce
        then show "\<not> js_lt (?d ((xs @ [x]) ! j)) (?d ((xs @ [x]) ! length xs))"
        proof cases
          case 1
          then have "\<not> js_lt (?d (xs ! j)) (?d x)" using mn[OF 1] True js_lt_trans by blast
          then show ?thesis using 1 by (simp add: nth_append)
        next
          case 2
          then show ?thesis by (simp add: js_lt_irrefl)
        qed
      next
        fix j assume j: "j < length xs"
        have "\<not> js_le (?d (xs ! j)) (?d x)" using mn[OF j] True js_le_lt_trans by blast
        then show "\<not> js_le (?d ((xs @ [x]) ! j)) (?d ((xs @ [x]) ! length xs))"
          using j by (simp add: nth_append)
      qed
      moreover have "trackNearest fp pos (xs @ [x]) (DistanceOnly PInf)
          = Nearest (((xs @ [x]) ! length xs)\<lparr>distance := ?d ((xs @ [x]) ! length xs)\<rparr>)"
        using True by (simp add: step nd)
      ultimately show ?thesis by blast
    next
      case False
      have "firstNearest fp pos (xs @ [x]) i"
        unfolding firstNearest_def
      proof (intro conjI allI impI)
        show "i < length (xs @ [x])" using i by simp
        show "js_lt (?d ((xs @ [x]) ! i)) PInf" using fin i by (simp add: nth_append)
      next
        fix j assume "j < length (xs @ [x])"
        then consider "j < length xs" | "j = length xs" by fastforce
        then show "\<not> js_lt (?d ((xs @ [x]) ! j)) (?d ((xs @ [x]) ! i))"
        proof cases
          case 1
          then show ?thesis using mn[OF 1] i by (simp add: nth_append)
        next
          case 2
          then show ?thesis using False i by (simp add: nth_append)
        qed
      next
        fix j assume j: "j < i"
        then show "\<not> js_le (?d ((xs @ [x]) ! j)) (?d ((xs @ [x]) ! i))"
          using fst[OF j] i by (simp add: nth_append)
      qed
      moreover have "trackNearest fp pos (xs @ [x]) (DistanceOnly PInf)
          = Nearest (((xs @ [x]) ! i)\<lparr>distance := ?d ((xs @ [x]) ! i)\<rparr>)"
        using False i by (simp add: step nd f nth_append)
      ultimately show ?thesis by blast
    qed
  qed
qed

lemma firstNearest_unique:
  assumes "firstNearest fp pos ps i" "firstNearest fp pos ps k"
  shows "i = k"
proof (rule ccontr)
  assume ne: "i \<noteq> k"
  let ?d = "\<lambda>n. distanceTo fp pos (ps ! n)"
  have a: "i < length ps" "k < length ps" "js_lt (?d i) PInf" "js_lt (?d k) PInf"
    using assms unfolding firstNearest_def by blast+
  have "\<not> js_lt (?d i) (?d k)" "\<not> js_lt (?d k) (?d i)"
    using assms a unfolding firstNearest_def by blast+
  moreover have "?d i \<noteq> NaN" "?d k \<noteq> NaN" using a js_lt_not_NaN by blast+
  ultimately have eq: "?d i = ?d k" using js_lt_total by blast
  then have le: "js_le (?d i) (?d k)" "js_le (?d k) (?d i)"
    using \<open>?d i \<noteq> NaN\<close> by (simp_all add: js_le_iff)
  from ne consider "i < k" | "k < i" by linarith
  then show False
  proof cases
    case 1
    then show False using assms(2) le unfolding firstNearest_def by blast
  next
    case 2
    then show False using assms(1) le unfolding firstNearest_def by blast
  qed
qed

lemma trackNearest_first:
  assumes "firstNearest fp pos ps i"
  shows "trackNearest fp pos ps (DistanceOnly PInf)
           = Nearest ((ps ! i)\<lparr>distance := distanceTo fp pos (ps ! i)\<rparr>)"
proof -
  have "\<not> (\<forall>j < length ps. \<not> js_lt (distanceTo fp pos (ps ! j)) PInf)"
    using assms unfolding firstNearest_def by blast
  with trackNearest_inv[of fp pos ps] obtain k where "firstNearest fp pos ps k"
    and "trackNearest fp pos ps (DistanceOnly PInf)
          = Nearest ((ps ! k)\<lparr>distance := distanceTo fp pos (ps ! k)\<rparr>)" by blast
  then show ?thesis using firstNearest_unique[OF assms] by blast
qed


lemma guidance_cong:
  "nearestPoint lv = n \<Longrightarrow> didTriggerAudio lv = b \<Longrightarrow>
     guidance lv st = guidance \<lparr>nearestPoint = n, didTriggerAudio = b\<rparr> st"
  by (simp add: guidance_def)

lemma processLocationUpdate_unfold:
  "processLocationUpdate fp pos st =
     (case find (triggers fp pos) (rev (locations st)) of
        None \<Rightarrow>
          guidance \<lparr>nearestPoint = trackNearest fp pos (locations st) (DistanceOnly PInf),
                    didTriggerAudio = False\<rparr>
            (st\<lparr>currentPosition := Some pos\<rparr>)
      | Some p \<Rightarrow> announce p (st\<lparr>currentPosition := Some pos\<rparr>))
     \<lparr>locations := map (visited fp pos) (locations st)\<rparr>"
proof -
  let ?st1 = "st\<lparr>currentPosition := Some pos\<rparr>"
  let ?lv0 = "\<lparr>nearestPoint = DistanceOnly PInf, didTriggerAudio = False\<rparr>"
  let ?r = "mapLocations fp pos (locations st) (?lv0, ?st1)"
  have n: "nearestPoint (fst (snd ?r)) = trackNearest fp pos (locations st) (DistanceOnly PInf)"
    by (simp add: mapLocations_nearest)
  have t: "didTriggerAudio (fst (snd ?r)) = list_ex (triggers fp pos) (locations st)"
    by (simp add: mapLocations_didTrigger)
  have s: "snd (snd ?r) =
      (case find (triggers fp pos) (rev (locations st)) of None \<Rightarrow> ?st1 | Some p \<Rightarrow> announce p ?st1)"
    by (simp add: mapLocations_state split: option.splits)
  have p: "processLocationUpdate fp pos st
      = (guidance (fst (snd ?r)) (snd (snd ?r)))\<lparr>locations := map (visited fp pos) (locations st)\<rparr>"
    by (simp add: processLocationUpdate_def Let_def mapLocations_fst)
  show ?thesis
  proof (cases "find (triggers fp pos) (rev (locations st))")
    case None
    then have "\<not> list_ex (triggers fp pos) (locations st)"
      by (simp add: find_None_iff list_ex_iff)
    then have "didTriggerAudio (fst (snd ?r)) = False" using t by simp
    from guidance_cong[OF n this] show ?thesis using None by (simp add: p s)
  next
    case (Some q)
    then have "list_ex (triggers fp pos) (locations st)"
      by (metis find_None_iff list_ex_iff option.distinct(1) set_rev)
    then have "didTriggerAudio (fst (snd ?r))" using t by simp
    then show ?thesis using Some by (simp add: p s guidance_def)
  qed
qed

lemma locations_processLocationUpdate:
  "locations (processLocationUpdate fp pos st) = map (visited fp pos) (locations st)"
  by (simp add: processLocationUpdate_unfold)

lemma find_rev_last:
  "i < length ps \<Longrightarrow> P (ps ! i) \<Longrightarrow> (\<forall>j. i < j \<and> j < length ps \<longrightarrow> \<not> P (ps ! j))
     \<Longrightarrow> find P (rev ps) = Some (ps ! i)"
proof (induction ps rule: rev_induct)
  case Nil
  then show ?case by simp
next
  case (snoc x xs)
  show ?case
  proof (cases "i = length xs")
    case True
    then show ?thesis using snoc.prems(2) by simp
  next
    case False
    with snoc.prems(1) have i: "i < length xs" by simp
    then have nx: "\<not> P x" using snoc.prems(3)[rule_format, of "length xs"] by simp
    have "P (xs ! i)" using snoc.prems(2) i by (simp add: nth_append)
    moreover have "\<forall>j. i < j \<and> j < length xs \<longrightarrow> \<not> P (xs ! j)"
    proof (intro allI impI)
      fix j assume j: "i < j \<and> j < length xs"
      then have "\<not> P ((xs @ [x]) ! j)" using snoc.prems(3)[rule_format, of j] by simp
      then show "\<not> P (xs ! j)" using j by (simp add: nth_append)
    qed
    ultimately have "find P (rev xs) = Some (xs ! i)" using snoc.IH i by blast
    then show ?thesis using nx i by (simp add: nth_append)
  qed
qed

lemma played_visited: "played (visited fp pos p) = (played p \<or> js_le (distanceTo fp pos p) TRIGGER_RADIUS)"
  by (simp add: visited_def)

lemma distance_visited: "distance (visited fp pos p) = distanceTo fp pos p"
  by (simp add: visited_def)

lemma visited_no_trigger: "\<not> triggers fp pos p \<Longrightarrow> visited fp pos p = p\<lparr>distance := distanceTo fp pos p\<rparr>"
  by (cases "played p") (auto simp add: visited_def triggers_def)

text \<open>
  C1, as the code has it. The update marks every point that is within the trigger radius
  and not yet played, however many there are in the same call. The narration that ends
  up activated, and the point named in the status message, belong to the last such point
  in the order of the list: each of them calls the setters, and the last call stands.
\<close>

theorem all_in_range_visited_last_announced:
  assumes "i < length (locations st)"
    and "triggers fp pos (locations st ! i)"
    and "\<forall>j. i < j \<and> j < length (locations st) \<longrightarrow> \<not> triggers fp pos (locations st ! j)"
  shows "(\<forall>j < length (locations st). triggers fp pos (locations st ! j) \<longrightarrow>
            played (locations (processLocationUpdate fp pos st) ! j))
       \<and> activeAudio (processLocationUpdate fp pos st) = Some (audioSrc (locations st ! i))
       \<and> statusMessage (processLocationUpdate fp pos st)
           = ''Playing story for: '' @ name (locations st ! i)"
proof -
  have f: "find (triggers fp pos) (rev (locations st)) = Some (locations st ! i)"
    using assms by (rule find_rev_last)
  have "\<forall>j < length (locations st). triggers fp pos (locations st ! j) \<longrightarrow>
            played (locations (processLocationUpdate fp pos st) ! j)"
    by (simp add: locations_processLocationUpdate played_visited triggers_def)
  moreover have "activeAudio (processLocationUpdate fp pos st) = Some (audioSrc (locations st ! i))"
    by (simp add: processLocationUpdate_unfold f announce_def)
  moreover have "statusMessage (processLocationUpdate fp pos st)
           = ''Playing story for: '' @ name (locations st ! i)"
    by (simp add: processLocationUpdate_unfold f announce_def)
  ultimately show ?thesis by blast
qed

lemma played_processAll:
  "i < length (locations st) \<Longrightarrow> played (locations st ! i)
     \<Longrightarrow> played (locations (processAll fp samples st) ! i)"
proof (induction samples arbitrary: st)
  case Nil
  then show ?case by simp
next
  case (Cons pos rest)
  have "i < length (locations (processLocationUpdate fp pos st))"
    using Cons.prems(1) by (simp add: locations_processLocationUpdate)
  moreover have "played (locations (processLocationUpdate fp pos st) ! i)"
    using Cons.prems by (simp add: locations_processLocationUpdate played_visited)
  ultimately show ?case using Cons.IH by simp
qed

text \<open>
  C2. For the point at any index: the update stores the distance it computed; the flag
  goes from false to true in an update exactly when it was false and that distance is at
  most the trigger radius; and a flag that is true stays true after any further samples.
\<close>

theorem played_iff_in_range_and_monotonic:
  assumes "i < length (locations st)"
  shows "distance (locations (processLocationUpdate fp pos st) ! i)
           = getDistance fp (latitude pos) (longitude pos) (lat (locations st ! i)) (lon (locations st ! i))
       \<and> ((\<not> played (locations st ! i) \<and> played (locations (processLocationUpdate fp pos st) ! i))
            = (\<not> played (locations st ! i)
               \<and> js_le (distance (locations (processLocationUpdate fp pos st) ! i)) TRIGGER_RADIUS))
       \<and> (played (locations st ! i) \<longrightarrow> played (locations (processAll fp samples st) ! i))"
  using assms played_processAll[of i st fp samples]
  by (auto simp add: locations_processLocationUpdate played_visited distance_visited distanceTo_def)

section \<open>The update on the example tours\<close>

lemma abs_sin_eq: "\<bar>y\<bar> \<le> pi / 2 \<Longrightarrow> \<bar>sin y\<bar> = sin \<bar>y\<bar>" for y :: real
proof -
  assume a: "\<bar>y\<bar> \<le> pi / 2"
  then have "0 \<le> sin \<bar>y\<bar>" by (intro sin_ge_zero) auto
  then show ?thesis by (cases "0 \<le> y") (auto simp add: abs_if)
qed

lemma distance_m_meridian:
  assumes "\<bar>lat2 - lat1\<bar> \<le> 90"
  shows "distance_m lat1 lo lat2 lo = arc_m (lat2 - lat1)"
proof -
  define y where "y = (lat2 - lat1) * PI_double / 180 / 2"
  have ay: "\<bar>y\<bar> = \<bar>lat2 - lat1\<bar> * PI_double / 360"
    using PI_double_bounds(1) by (simp add: y_def abs_mult)
  have "\<bar>lat2 - lat1\<bar> * PI_double \<le> 90 * 4"
    using assms PI_double_bounds by (intro mult_mono) simp_all
  then have "\<bar>y\<bar> \<le> 1" unfolding ay by simp
  also have "1 \<le> pi / 2" using pi_ge_two by simp
  finally have b: "\<bar>y\<bar> \<le> pi / 2" .
  have h: "hav lat1 lo lat2 lo = sin y * sin y" by (simp add: hav_def y_def)
  have "sqrt (hav lat1 lo lat2 lo) = \<bar>sin y\<bar>" unfolding h by simp
  also have "\<dots> = sin \<bar>y\<bar>" using b by (rule abs_sin_eq)
  finally have "arcsin (sqrt (hav lat1 lo lat2 lo)) = arcsin (sin \<bar>y\<bar>)" by simp
  also have "\<dots> = \<bar>y\<bar>" using b by (intro arcsin_sin) auto
  finally have e: "arcsin (sqrt (hav lat1 lo lat2 lo)) = \<bar>lat2 - lat1\<bar> * PI_double / 360"
    unfolding ay .
  show ?thesis unfolding distance_m_arcsin e arc_m_def by simp
qed

lemma getDistance_from_origin:
  assumes "\<bar>la\<bar> \<le> 90"
  shows "getDistance exact_fp (Fin 0) (Fin 0) (Fin la) (Fin 0) = Fin (arc_m la)"
proof -
  have z: "\<bar>0::real\<bar> \<le> 10 ^ 300" by simp
  have "(90::real) \<le> 10 ^ 300" by simp
  with assms have b: "\<bar>la\<bar> \<le> 10 ^ 300" by (rule order.trans)
  have m: "\<bar>la - 0\<bar> \<le> 90" using assms by simp
  show ?thesis
    unfolding getDistance_exact[OF z z b z] distance_m_meridian[OF m] by simp
qed

lemma distanceTo_origin:
  "lat p = Fin la \<Longrightarrow> lon p = Fin 0 \<Longrightarrow> \<bar>la\<bar> \<le> 90 \<Longrightarrow> distanceTo exact_fp origin p = Fin (arc_m la)"
  by (simp add: distanceTo_def origin_def getDistance_from_origin)

lemma distanceTo_origin_A: "distanceTo exact_fp origin (initialLocation poiA) = Fin 0"
  using distanceTo_origin[of "initialLocation poiA" 0]
  by (simp add: initialLocation_def poiA_def arc_m_def)

lemma distanceTo_origin_B: "distanceTo exact_fp origin (initialLocation poiB) = Fin (arc_m (1 / 10000))"
  using distanceTo_origin[of "initialLocation poiB" "1 / 10000"]
  by (simp add: initialLocation_def poiB_def)

lemma distanceTo_origin_North: "distanceTo exact_fp origin (initialLocation poiNorth) = Fin (arc_m 1)"
  using distanceTo_origin[of "initialLocation poiNorth" 1]
  by (simp add: initialLocation_def poiNorth_def)

lemma distanceTo_origin_South: "distanceTo exact_fp origin (initialLocation poiSouth) = Fin (arc_m 1)"
  using distanceTo_origin[of "initialLocation poiSouth" "- 1"]
  by (simp add: initialLocation_def poiSouth_def arc_m_def)

lemma distanceTo_origin_FarSouth: "distanceTo exact_fp origin (initialLocation poiFarSouth) = Fin (arc_m 2)"
  using distanceTo_origin[of "initialLocation poiFarSouth" "- 2"]
  by (simp add: initialLocation_def poiFarSouth_def arc_m_def)

lemma near_B: "arc_m (1 / 10000) \<le> 30"
  by (simp add: arc_m_def PI_double_def)

lemma far_North: "\<not> arc_m 1 \<le> 30"
  by (simp add: arc_m_def PI_double_def)

lemma far_FarSouth: "\<not> arc_m 2 \<le> 30"
  by (simp add: arc_m_def PI_double_def)

lemma North_nearer: "arc_m 1 < arc_m 2"
  by (simp add: arc_m_def PI_double_def)

lemma round_arc_1: "\<lfloor>arc_m 1 + 1 / 2\<rfloor> = 111195"
  by (rule floor_unique) (simp_all add: arc_m_def PI_double_def)

lemma show_nat_111195: "show_nat 111195 = ''111195''"
  by (simp add: show_nat.simps[of 111195] show_nat.simps[of 11119] show_nat.simps[of 1111]
        show_nat.simps[of 111] show_nat.simps[of 11] show_nat.simps[of "Suc 0"])

lemma triggers_A: "triggers exact_fp origin (initialLocation poiA)"
  by (simp add: triggers_def distanceTo_origin_A TRIGGER_RADIUS_def) (simp add: initialLocation_def)

lemma triggers_B: "triggers exact_fp origin (initialLocation poiB)"
  using near_B
  by (simp add: triggers_def distanceTo_origin_B TRIGGER_RADIUS_def) (simp add: initialLocation_def)

text \<open>
  C1 as stated fails: with \<open>poiA\<close> and \<open>poiB\<close> both unplayed and both within 30 m of the
  sample, one update marks both, and the status message names the second.
\<close>

theorem two_points_in_range_both_visited:
  "map played (locations (initialHome [poiA, poiB] None)) = [False, False]
   \<and> js_le (distanceTo exact_fp origin (initialLocation poiA)) TRIGGER_RADIUS
   \<and> js_le (distanceTo exact_fp origin (initialLocation poiB)) TRIGGER_RADIUS
   \<and> map played (locations (processLocationUpdate exact_fp origin (initialHome [poiA, poiB] None))) = [True, True]
   \<and> statusMessage (processLocationUpdate exact_fp origin (initialHome [poiA, poiB] None)) = ''Playing story for: B''
   \<and> activeAudio (processLocationUpdate exact_fp origin (initialHome [poiA, poiB] None)) = Some ''/b.m4a''"
proof -
  have l: "locations (initialHome [poiA, poiB] None) = [initialLocation poiA, initialLocation poiB]"
    by (simp add: initialHome_def)
  have f: "find (triggers exact_fp origin) (rev (locations (initialHome [poiA, poiB] None))) = Some (initialLocation poiB)"
    by (simp add: l triggers_B)
  have a: "js_le (distanceTo exact_fp origin (initialLocation poiA)) TRIGGER_RADIUS"
    and b: "js_le (distanceTo exact_fp origin (initialLocation poiB)) TRIGGER_RADIUS"
    using triggers_A triggers_B by (simp_all add: triggers_def)
  have "map played (locations (initialHome [poiA, poiB] None)) = [False, False]"
    by (simp add: l initialLocation_def)
  moreover have "map played (locations (processLocationUpdate exact_fp origin (initialHome [poiA, poiB] None))) = [True, True]"
    by (simp add: locations_processLocationUpdate l played_visited a b)
  moreover have "statusMessage (processLocationUpdate exact_fp origin (initialHome [poiA, poiB] None)) = ''Playing story for: B''"
    by (simp add: processLocationUpdate_unfold f announce_def) (simp add: initialLocation_def poiB_def)
  moreover have "activeAudio (processLocationUpdate exact_fp origin (initialHome [poiA, poiB] None)) = Some ''/b.m4a''"
    by (simp add: processLocationUpdate_unfold f announce_def) (simp add: initialLocation_def poiB_def)
  ultimately show ?thesis using a b by blast
qed

text \<open>C1, as the code has it, on the same tour.\<close>

theorem last_announced_witness:
  "triggers exact_fp origin (locations (initialHome [poiA, poiB] None) ! 0)
   \<and> triggers exact_fp origin (locations (initialHome [poiA, poiB] None) ! 1)
   \<and> played (locations (processLocationUpdate exact_fp origin (initialHome [poiA, poiB] None)) ! 0)
   \<and> played (locations (processLocationUpdate exact_fp origin (initialHome [poiA, poiB] None)) ! 1)
   \<and> activeAudio (processLocationUpdate exact_fp origin (initialHome [poiA, poiB] None)) = Some ''/b.m4a''
   \<and> statusMessage (processLocationUpdate exact_fp origin (initialHome [poiA, poiB] None)) = ''Playing story for: B''"
proof -
  let ?st = "initialHome [poiA, poiB] None"
  have l: "locations ?st = [initialLocation poiA, initialLocation poiB]"
    by (simp add: initialHome_def)
  have h1: "1 < length (locations ?st)" by (simp add: l)
  have h2: "triggers exact_fp origin (locations ?st ! 1)" by (simp add: l triggers_B)
  have h0: "triggers exact_fp origin (locations ?st ! 0)" by (simp add: l triggers_A)
  have h3: "\<forall>j. 1 < j \<and> j < length (locations ?st) \<longrightarrow> \<not> triggers exact_fp origin (locations ?st ! j)"
    by (auto simp add: l)
  have n: "name (locations ?st ! 1) = ''B''" "audioSrc (locations ?st ! 1) = ''/b.m4a''"
    by (simp_all add: l) (simp_all add: initialLocation_def poiB_def)
  note t = all_in_range_visited_last_announced[OF h1 h2 h3, unfolded n]
  from t have a: "\<forall>j < length (locations ?st). triggers exact_fp origin (locations ?st ! j) \<longrightarrow>
            played (locations (processLocationUpdate exact_fp origin ?st) ! j)" by blast
  from t have r: "activeAudio (processLocationUpdate exact_fp origin ?st) = Some ''/b.m4a''"
       "statusMessage (processLocationUpdate exact_fp origin ?st) = ''Playing story for: B''"
    by simp_all
  have h00: "0 < length (locations ?st)" by (simp add: l)
  have "played (locations (processLocationUpdate exact_fp origin ?st) ! 0)"
    using a h00 h0 by blast
  moreover have "played (locations (processLocationUpdate exact_fp origin ?st) ! 1)"
    using a h1 h2 by blast
  ultimately show ?thesis using h0 h2 r by blast
qed

text \<open>C2 on a tour of two points, the first one at the sample.\<close>

theorem played_witness:
  "\<not> played (locations (initialHome [poiA, poiNorth] None) ! 0)
   \<and> played (locations (processLocationUpdate exact_fp origin (initialHome [poiA, poiNorth] None)) ! 0)
   \<and> distance (locations (processLocationUpdate exact_fp origin (initialHome [poiA, poiNorth] None)) ! 0) = Fin 0"
proof -
  let ?st = "initialHome [poiA, poiNorth] None"
  have l: "locations ?st = [initialLocation poiA, initialLocation poiNorth]"
    by (simp add: initialHome_def)
  have h: "0 < length (locations ?st)" by (simp add: l)
  have d: "getDistance exact_fp (latitude origin) (longitude origin) (lat (locations ?st ! 0)) (lon (locations ?st ! 0)) = Fin 0"
    using distanceTo_origin_A by (simp add: l distanceTo_def)
  have np: "\<not> played (locations ?st ! 0)" by (simp add: l initialLocation_def)
  from played_iff_in_range_and_monotonic[OF h, of exact_fp origin "[]"] np
  show ?thesis unfolding d by (simp add: TRIGGER_RADIUS_def)
qed

section \<open>Malformed samples and updates without a trigger\<close>

lemma distanceTo_nonfinite:
  "\<not> isFinite (latitude pos) \<or> \<not> isFinite (longitude pos) \<Longrightarrow> distanceTo fp pos p = NaN"
  by (simp add: distanceTo_def getDistance_nonfinite)

lemma trackNearest_NaN:
  "(\<forall>p \<in> set ps. distanceTo fp pos p = NaN) \<Longrightarrow> trackNearest fp pos ps n = n"
  by (induction ps arbitrary: n) simp_all

lemma find_None_rev: "(\<forall>p \<in> set ps. \<not> P p) \<Longrightarrow> find P (rev ps) = None"
  by (simp add: find_None_iff)

text \<open>
  C3, as the code has it. A sample with a latitude or longitude that is not finite is not
  rejected and no error is set. The update runs: it stores the sample as the current
  position, overwrites the distance of every point with NaN, changes no played flag,
  activates no narration, and sets the status message to the searching text.
\<close>

theorem nonfinite_sample_accepted:
  assumes "\<not> isFinite (latitude pos) \<or> \<not> isFinite (longitude pos)"
  shows "processLocationUpdate fp pos st =
           st\<lparr>locations := map (\<lambda>p. p\<lparr>distance := NaN\<rparr>) (locations st),
              currentPosition := Some pos,
              statusMessage := ''Searching for points of interest...''\<rparr>"
proof -
  have d: "distanceTo fp pos p = NaN" for p
    using assms by (rule distanceTo_nonfinite)
  have nt: "\<not> triggers fp pos p" for p by (simp add: triggers_def d)
  have f: "find (triggers fp pos) (rev (locations st)) = None"
    by (rule find_None_rev) (simp add: nt)
  have n: "trackNearest fp pos (locations st) (DistanceOnly PInf) = DistanceOnly PInf"
    by (rule trackNearest_NaN) (simp add: d)
  have v: "visited fp pos = (\<lambda>p. p\<lparr>distance := NaN\<rparr>)"
    by (rule ext) (simp add: visited_no_trigger nt d)
  show ?thesis
    by (simp add: processLocationUpdate_unfold f n v guidance_def)
qed

text \<open>
  C3 as stated fails: on the start state of the catalog, a sample with a NaN latitude
  replaces the three distances, no error is reported.
\<close>

theorem nan_sample_overwrites_distances:
  "map distance (locations (initialHome pointsOfInterest None)) = [PInf, PInf, PInf]
   \<and> map distance (locations (processLocationUpdate exact_fp nanSample (initialHome pointsOfInterest None)))
       = [NaN, NaN, NaN]
   \<and> error (processLocationUpdate exact_fp nanSample (initialHome pointsOfInterest None)) = None
   \<and> statusMessage (processLocationUpdate exact_fp nanSample (initialHome pointsOfInterest None))
       = ''Searching for points of interest...''"
proof -
  let ?st = "initialHome pointsOfInterest None"
  have l: "length (locations ?st) = 3" by (simp add: initialHome_def pointsOfInterest_def)
  have d: "distanceTo exact_fp nanSample p = NaN" for p
    by (rule distanceTo_nonfinite) (simp add: nanSample_def)
  have nt: "\<not> triggers exact_fp nanSample p" for p by (simp add: triggers_def d)
  have f: "find (triggers exact_fp nanSample) (rev (locations ?st)) = None"
    by (rule find_None_rev) (simp add: nt)
  have n: "trackNearest exact_fp nanSample (locations ?st) (DistanceOnly PInf) = DistanceOnly PInf"
    by (rule trackNearest_NaN) (simp add: d)
  have "map distance (locations ?st) = [PInf, PInf, PInf]"
    by (simp add: initialHome_def pointsOfInterest_def initialLocation_def)
  moreover have "map distance (locations (processLocationUpdate exact_fp nanSample ?st)) = [NaN, NaN, NaN]"
    by (simp add: locations_processLocationUpdate distance_visited d o_def)
       (simp add: initialHome_def pointsOfInterest_def)
  moreover have "error (processLocationUpdate exact_fp nanSample ?st) = None"
    by (simp add: processLocationUpdate_unfold f n guidance_def) (simp add: initialHome_def)
  moreover have "statusMessage (processLocationUpdate exact_fp nanSample ?st) = ''Searching for points of interest...''"
    by (simp add: processLocationUpdate_unfold f n guidance_def)
  ultimately show ?thesis by blast
qed

text \<open>C3, as the code has it, on a tour of one point.\<close>

theorem nonfinite_sample_witness:
  "processLocationUpdate exact_fp nanSample (initialHome [poiA] None) =
     (initialHome [poiA] None)
       \<lparr>locations := [(initialLocation poiA)\<lparr>distance := NaN\<rparr>],
        currentPosition := Some nanSample,
        statusMessage := ''Searching for points of interest...''\<rparr>"
proof -
  have h: "\<not> isFinite (latitude nanSample) \<or> \<not> isFinite (longitude nanSample)"
    by (simp add: nanSample_def)
  show ?thesis
    using nonfinite_sample_accepted[OF h, of exact_fp "initialHome [poiA] None"]
    by (simp add: initialHome_def)
qed


lemma rounded_text:
  "js_toString (Math_round d) =
     (case d of Fin x \<Rightarrow> decimal \<lfloor>x + 1 / 2\<rfloor> | PInf \<Rightarrow> ''Infinity''
      | NInf \<Rightarrow> ''-Infinity'' | NaN \<Rightarrow> ''NaN'')"
proof (cases d)
  case (Fin x)
  have "\<lfloor>\<bar>of_int \<lfloor>x + 1 / 2\<rfloor> :: real\<bar>\<rfloor> = \<bar>\<lfloor>x + 1 / 2\<rfloor>\<bar>"
    by (metis floor_of_int of_int_abs)
  then show ?thesis using Fin by (simp add: decimal_def)
qed simp_all

lemma guidance_Nearest:
  "js_lt (distance q) PInf \<Longrightarrow>
     guidance \<lparr>nearestPoint = Nearest q, didTriggerAudio = False\<rparr> st
       = st\<lparr>statusMessage := ''Walk towards '' @ name q @ '' ('' @ js_toString (Math_round (distance q)) @ ''m away)''\<rparr>"
  by (cases "distance q") (simp_all add: guidance_def)

lemma guidance_sentinel:
  "guidance \<lparr>nearestPoint = DistanceOnly PInf, didTriggerAudio = False\<rparr> st
       = st\<lparr>statusMessage := ''Searching for points of interest...''\<rparr>"
  by (simp add: guidance_def)

lemma no_trigger_first:
  assumes "\<forall>p \<in> set (locations st). \<not> triggers fp pos p" and "firstNearest fp pos (locations st) i"
  shows "processLocationUpdate fp pos st =
           st\<lparr>locations := map (visited fp pos) (locations st),
              currentPosition := Some pos,
              statusMessage := ''Walk towards '' @ name (locations st ! i) @ '' (''
                @ js_toString (Math_round (distanceTo fp pos (locations st ! i))) @ ''m away)''\<rparr>"
proof -
  have f: "find (triggers fp pos) (rev (locations st)) = None"
    using assms(1) by (rule find_None_rev)
  have n: "trackNearest fp pos (locations st) (DistanceOnly PInf)
      = Nearest ((locations st ! i)\<lparr>distance := distanceTo fp pos (locations st ! i)\<rparr>)"
    using assms(2) by (rule trackNearest_first)
  have lt: "js_lt (distanceTo fp pos (locations st ! i)) PInf"
    using assms(2) unfolding firstNearest_def by blast
  show ?thesis
    by (simp add: processLocationUpdate_unfold f n guidance_Nearest lt)
qed

lemma no_trigger_sentinel:
  assumes "\<forall>p \<in> set (locations st). \<not> triggers fp pos p"
    and "\<forall>j < length (locations st). \<not> js_lt (distanceTo fp pos (locations st ! j)) PInf"
  shows "processLocationUpdate fp pos st =
           st\<lparr>locations := map (visited fp pos) (locations st),
              currentPosition := Some pos,
              statusMessage := ''Searching for points of interest...''\<rparr>"
proof -
  have f: "find (triggers fp pos) (rev (locations st)) = None"
    using assms(1) by (rule find_None_rev)
  have "\<not> (\<exists>i. firstNearest fp pos (locations st) i)"
    using assms(2) unfolding firstNearest_def by blast
  then have n: "trackNearest fp pos (locations st) (DistanceOnly PInf) = DistanceOnly PInf"
    using trackNearest_inv[of fp pos "locations st"] by blast
  show ?thesis
    by (simp add: processLocationUpdate_unfold f n guidance_sentinel)
qed

lemma no_trigger_played:
  "(\<forall>p \<in> set ps. \<not> triggers fp pos p) \<Longrightarrow> map played (map (visited fp pos) ps) = map played ps"
  by (induction ps) (simp_all add: visited_no_trigger)

text \<open>
  C5. When no point triggers, the update leaves the active narration and every played
  flag as they were. If no point has a distance below the infinity sentinel, the status
  message is the searching text. Otherwise it is ``Walk towards N (Dm away)'' where N is
  a point whose distance is a number below the sentinel and such that no point of the
  list, played or not, is nearer, and D is that distance rounded to the nearest integer
  (half-way cases up), in decimal digits.
\<close>

theorem no_trigger_guidance:
  assumes "\<forall>p \<in> set (locations st). \<not> triggers fp pos p"
  shows "activeAudio (processLocationUpdate fp pos st) = activeAudio st
       \<and> map played (locations (processLocationUpdate fp pos st)) = map played (locations st)
       \<and> (if \<forall>p \<in> set (locations st). \<not> js_lt (distanceTo fp pos p) PInf
          then statusMessage (processLocationUpdate fp pos st) = ''Searching for points of interest...''
          else \<exists>k < length (locations st).
                 js_lt (distanceTo fp pos (locations st ! k)) PInf
                 \<and> (\<forall>j < length (locations st).
                      \<not> js_lt (distanceTo fp pos (locations st ! j)) (distanceTo fp pos (locations st ! k)))
                 \<and> statusMessage (processLocationUpdate fp pos st)
                     = ''Walk towards '' @ name (locations st ! k) @ '' (''
                         @ (case distanceTo fp pos (locations st ! k) of
                              Fin x \<Rightarrow> decimal \<lfloor>x + 1 / 2\<rfloor>
                            | PInf \<Rightarrow> ''Infinity''
                            | NInf \<Rightarrow> ''-Infinity''
                            | NaN \<Rightarrow> ''NaN'')
                         @ ''m away)'')"
proof -
  let ?ps = "locations st"
  have pl: "map played (locations (processLocationUpdate fp pos st)) = map played ?ps"
    using no_trigger_played[OF assms] by (simp only: locations_processLocationUpdate)
  have ix: "(\<forall>p \<in> set ?ps. \<not> js_lt (distanceTo fp pos p) PInf)
      = (\<forall>j < length ?ps. \<not> js_lt (distanceTo fp pos (?ps ! j)) PInf)"
    by (simp add: all_set_conv_all_nth)
  show ?thesis
  proof (cases "\<forall>p \<in> set ?ps. \<not> js_lt (distanceTo fp pos p) PInf")
    case True
    then have "\<forall>j < length ?ps. \<not> js_lt (distanceTo fp pos (?ps ! j)) PInf" using ix by simp
    from no_trigger_sentinel[OF assms this] show ?thesis using True pl by simp
  next
    case False
    then have "\<not> (\<forall>j < length ?ps. \<not> js_lt (distanceTo fp pos (?ps ! j)) PInf)" using ix by simp
    with trackNearest_inv[of fp pos ?ps] obtain k where k: "firstNearest fp pos ?ps k" by blast
    have k1: "k < length ?ps"
      and k0: "js_lt (distanceTo fp pos (?ps ! k)) PInf"
      and k2: "\<forall>j < length ?ps. \<not> js_lt (distanceTo fp pos (?ps ! j)) (distanceTo fp pos (?ps ! k))"
      using k unfolding firstNearest_def by blast+
    have u: "processLocationUpdate fp pos st =
           st\<lparr>locations := map (visited fp pos) ?ps,
              currentPosition := Some pos,
              statusMessage := ''Walk towards '' @ name (?ps ! k) @ '' (''
                @ js_toString (Math_round (distanceTo fp pos (?ps ! k))) @ ''m away)''\<rparr>"
      using assms k by (rule no_trigger_first)
    have a: "activeAudio (processLocationUpdate fp pos st) = activeAudio st"
      unfolding u by simp
    have m: "statusMessage (processLocationUpdate fp pos st)
                     = ''Walk towards '' @ name (?ps ! k) @ '' (''
                         @ (case distanceTo fp pos (?ps ! k) of
                              Fin x \<Rightarrow> decimal \<lfloor>x + 1 / 2\<rfloor>
                            | PInf \<Rightarrow> ''Infinity''
                            | NInf \<Rightarrow> ''-Infinity''
                            | NaN \<Rightarrow> ''NaN'')
                         @ ''m away)''"
      unfolding u by (simp add: rounded_text)
    show ?thesis using False a pl k0 k1 k2 m by auto
  qed
qed

text \<open>
  C10. When no point triggers and several points are at the same least distance, the
  status message names the first of them in the order of the list.
\<close>

theorem nearest_tie_takes_first:
  assumes "\<forall>p \<in> set (locations st). \<not> triggers fp pos p"
    and "i < length (locations st)"
    and "js_lt (distanceTo fp pos (locations st ! i)) PInf"
    and "\<forall>j < length (locations st).
           \<not> js_lt (distanceTo fp pos (locations st ! j)) (distanceTo fp pos (locations st ! i))"
    and "\<forall>j < i. distanceTo fp pos (locations st ! j) \<noteq> distanceTo fp pos (locations st ! i)"
  shows "statusMessage (processLocationUpdate fp pos st)
           = ''Walk towards '' @ name (locations st ! i) @ '' (''
               @ js_toString (Math_round (distanceTo fp pos (locations st ! i))) @ ''m away)''"
proof -
  have "\<forall>j < i. \<not> js_le (distanceTo fp pos (locations st ! j)) (distanceTo fp pos (locations st ! i))"
    using assms(2,4,5) by (auto simp add: js_le_iff)
  then have "firstNearest fp pos (locations st) i"
    using assms(2,3,4) unfolding firstNearest_def by blast
  from no_trigger_first[OF assms(1) this] show ?thesis by simp
qed


text \<open>
  C5 on a tour of two points: the second is the nearer one, at 111194.93 m from the
  sample.
\<close>

theorem no_trigger_guidance_witness:
  "activeAudio (processLocationUpdate exact_fp origin (initialHome [poiFarSouth, poiNorth] None)) = None
   \<and> map played (locations (processLocationUpdate exact_fp origin (initialHome [poiFarSouth, poiNorth] None)))
       = [False, False]
   \<and> statusMessage (processLocationUpdate exact_fp origin (initialHome [poiFarSouth, poiNorth] None))
       = ''Walk towards North (111195m away)''"
proof -
  let ?st = "initialHome [poiFarSouth, poiNorth] None"
  let ?st' = "processLocationUpdate exact_fp origin ?st"
  have l: "locations ?st = [initialLocation poiFarSouth, initialLocation poiNorth]"
    by (simp add: initialHome_def)
  have d0: "distanceTo exact_fp origin (locations ?st ! 0) = Fin (arc_m 2)"
    and d1: "distanceTo exact_fp origin (locations ?st ! 1) = Fin (arc_m 1)"
    by (simp_all add: l distanceTo_origin_FarSouth distanceTo_origin_North)
  have h: "\<forall>p \<in> set (locations ?st). \<not> triggers exact_fp origin p"
    using far_North far_FarSouth
    by (simp add: l triggers_def distanceTo_origin_FarSouth distanceTo_origin_North TRIGGER_RADIUS_def)
  have c: "\<not> (\<forall>p \<in> set (locations ?st). \<not> js_lt (distanceTo exact_fp origin p) PInf)"
    by (simp add: l distanceTo_origin_North)
  have a: "activeAudio ?st = None" "map played (locations ?st) = [False, False]"
    by (simp_all add: initialHome_def initialLocation_def)
  from no_trigger_guidance[OF h] c
  have r1: "activeAudio ?st' = activeAudio ?st"
    and r2: "map played (locations ?st') = map played (locations ?st)"
    and "\<exists>k < length (locations ?st).
           (\<forall>j < length (locations ?st).
              \<not> js_lt (distanceTo exact_fp origin (locations ?st ! j))
                      (distanceTo exact_fp origin (locations ?st ! k)))
           \<and> statusMessage ?st'
             = ''Walk towards '' @ name (locations ?st ! k) @ '' (''
                 @ (case distanceTo exact_fp origin (locations ?st ! k) of
                      Fin x \<Rightarrow> decimal \<lfloor>x + 1 / 2\<rfloor>
                    | PInf \<Rightarrow> ''Infinity''
                    | NInf \<Rightarrow> ''-Infinity''
                    | NaN \<Rightarrow> ''NaN'')
                 @ ''m away)''"
    by auto
  then obtain k where k: "k < length (locations ?st)"
    and mn: "\<forall>j < length (locations ?st).
              \<not> js_lt (distanceTo exact_fp origin (locations ?st ! j))
                      (distanceTo exact_fp origin (locations ?st ! k))"
    and msg: "statusMessage ?st'
             = ''Walk towards '' @ name (locations ?st ! k) @ '' (''
                 @ (case distanceTo exact_fp origin (locations ?st ! k) of
                      Fin x \<Rightarrow> decimal \<lfloor>x + 1 / 2\<rfloor>
                    | PInf \<Rightarrow> ''Infinity''
                    | NInf \<Rightarrow> ''-Infinity''
                    | NaN \<Rightarrow> ''NaN'')
                 @ ''m away)''"
    by blast
  have len: "length (locations ?st) = 2" by (simp add: l)
  have "k \<noteq> 0"
  proof
    assume "k = 0"
    then have "\<not> js_lt (distanceTo exact_fp origin (locations ?st ! 1))
                      (distanceTo exact_fp origin (locations ?st ! 0))"
      using mn len by simp
    then show False unfolding d0 d1 using North_nearer by simp
  qed
  then have k1: "k = 1" using k len by simp
  have n: "name (locations ?st ! 1) = ''North''"
    by (simp add: l) (simp add: initialLocation_def poiNorth_def)
  have "statusMessage ?st' = ''Walk towards North (111195m away)''"
    using msg unfolding k1 d1 n by (simp add: round_arc_1 decimal_def show_nat_111195)
  then show ?thesis using r1 r2 a by simp
qed

text \<open>C10 on two points at the same distance from the sample, North listed first.\<close>

theorem nearest_tie_witness:
  "distanceTo exact_fp origin (initialLocation poiNorth) = distanceTo exact_fp origin (initialLocation poiSouth)
   \<and> statusMessage (processLocationUpdate exact_fp origin (initialHome [poiNorth, poiSouth] None))
       = ''Walk towards North (111195m away)''"
proof -
  let ?st = "initialHome [poiNorth, poiSouth] None"
  have l: "locations ?st = [initialLocation poiNorth, initialLocation poiSouth]"
    by (simp add: initialHome_def)
  have h1: "\<forall>p \<in> set (locations ?st). \<not> triggers exact_fp origin p"
    using far_North
    by (simp add: l triggers_def distanceTo_origin_North distanceTo_origin_South TRIGGER_RADIUS_def)
  have h2: "0 < length (locations ?st)" by (simp add: l)
  have h3: "js_lt (distanceTo exact_fp origin (locations ?st ! 0)) PInf"
    by (simp add: l distanceTo_origin_North)
  have h4: "\<forall>j < length (locations ?st).
           \<not> js_lt (distanceTo exact_fp origin (locations ?st ! j)) (distanceTo exact_fp origin (locations ?st ! 0))"
    by (auto simp add: l distanceTo_origin_North distanceTo_origin_South less_Suc_eq)
  have h5: "\<forall>j < 0. distanceTo exact_fp origin (locations ?st ! j) \<noteq> distanceTo exact_fp origin (locations ?st ! 0)"
    by simp
  have n: "name (locations ?st ! 0) = ''North''" by (simp add: l) (simp add: initialLocation_def poiNorth_def)
  have d: "distanceTo exact_fp origin (locations ?st ! 0) = Fin (arc_m 1)"
    by (simp add: l distanceTo_origin_North)
  have r: "js_toString (Math_round (Fin (arc_m 1))) = ''111195''"
    by (simp add: round_arc_1 show_nat_111195)
  show ?thesis
    using nearest_tie_takes_first[OF h1 h2 h3 h4 h5]
    unfolding n d r by (simp add: distanceTo_origin_North distanceTo_origin_South)
qed

section \<open>Playback, position errors and the AR button\<close>

lemma processLocationUpdate_audioRef:
  "processLocationUpdate fp pos (st\<lparr>audioRef := a\<rparr>) = (processLocationUpdate fp pos st)\<lparr>audioRef := a\<rparr>"
  by (simp add: processLocationUpdate_unfold announce_def guidance_def split: option.splits)

lemma showAR_processLocationUpdate: "showAR (processLocationUpdate fp pos st) = showAR st"
  by (simp add: processLocationUpdate_unfold announce_def guidance_def split: option.splits)

lemma audioRef_processLocationUpdate: "audioRef (processLocationUpdate fp pos st) = audioRef st"
  by (simp add: processLocationUpdate_unfold announce_def guidance_def split: option.splits)

text \<open>
  C6. When an audio element is mounted, a narration is active and \<open>play()\<close> is rejected,
  the effect sets the error to the notice that asks the visitor to press play, in both
  versions of the effect. It leaves the list of points, and so every played flag, as the
  update committed it; the active narration is unchanged and is the source loaded in the
  audio element.
\<close>

theorem autoplay_blocked_notice:
  assumes "audioRef st = Some el" and "truthy (activeAudio st)"
  shows "error (playbackEffect Rejected st)
           = Some ''Your browser blocked autoplay. Please press play on the audio player.''
       \<and> locations (playbackEffect Rejected st) = locations st
       \<and> activeAudio (playbackEffect Rejected st) = activeAudio st
       \<and> map_option src (audioRef (playbackEffect Rejected st)) = activeAudio st
       \<and> error (playbackEffect_v2 Rejected st)
           = Some ''Your browser blocked autoplay. Please press the play button on the audio player below.''
       \<and> locations (playbackEffect_v2 Rejected st) = locations st
       \<and> activeAudio (playbackEffect_v2 Rejected st) = activeAudio st
       \<and> map_option src (audioRef (playbackEffect_v2 Rejected st)) = activeAudio st"
proof -
  from assms(2) obtain a where a: "activeAudio st = Some a" by (cases "activeAudio st") simp_all
  show ?thesis
    using assms by (simp add: playbackEffect_def playbackEffect_v2_def Let_def a split: option.splits)
qed

text \<open>C6 after the update that triggers \<open>poiA\<close>, with an audio element mounted.\<close>

theorem autoplay_blocked_witness:
  "played (locations (processLocationUpdate exact_fp origin (initialHome [poiA] (Some player))) ! 0)
   \<and> played (locations (playbackEffect Rejected
         (processLocationUpdate exact_fp origin (initialHome [poiA] (Some player)))) ! 0)
   \<and> error (playbackEffect Rejected (processLocationUpdate exact_fp origin (initialHome [poiA] (Some player))))
       = Some ''Your browser blocked autoplay. Please press play on the audio player.''
   \<and> map_option src (audioRef (playbackEffect Rejected
         (processLocationUpdate exact_fp origin (initialHome [poiA] (Some player))))) = Some ''/a.m4a''"
proof -
  let ?init = "initialHome [poiA] (Some player)"
  let ?st = "processLocationUpdate exact_fp origin ?init"
  have l: "locations ?init = [initialLocation poiA]" by (simp add: initialHome_def)
  have f: "find (triggers exact_fp origin) (rev (locations ?init)) = Some (initialLocation poiA)"
    by (simp add: l triggers_A)
  have a: "activeAudio ?st = Some ''/a.m4a''"
    by (simp add: processLocationUpdate_unfold f announce_def) (simp add: initialLocation_def poiA_def)
  have h1: "audioRef ?st = Some player"
    by (simp add: audioRef_processLocationUpdate) (simp add: initialHome_def)
  have h2: "truthy (activeAudio ?st)" by (simp add: a)
  have p: "played (locations ?st ! 0)"
    using triggers_A by (simp add: locations_processLocationUpdate l played_visited triggers_def)
  show ?thesis
    using autoplay_blocked_notice[OF h1 h2] p by (simp add: a)
qed

text \<open>
  C7, as the code has it. An error delivered to the error callback of \<open>watchPosition\<close> is
  surfaced as ``Location Error: '' followed by its message; an error of the initial
  \<open>getCurrentPosition\<close> request is surfaced as ``Permission Denied: '', the message and
  ``. Please enable location services.''. Neither changes the list of points.
\<close>

theorem position_errors_surfaced:
  "error (watchCallback fp (PositionError msg) st) = Some (''Location Error: '' @ msg)
   \<and> locations (watchCallback fp (PositionError msg) st) = locations st
   \<and> error (handleStartTour fp True (PositionError msg) watchId st)
       = Some (''Permission Denied: '' @ msg @ ''. Please enable location services.'')
   \<and> locations (handleStartTour fp True (PositionError msg) watchId st) = locations st"
  by (simp add: handleStartTour_def Let_def split: option.splits)

text \<open>
  C7 as stated fails: a timeout of the initial position request is an error of the
  position source, and it is not surfaced as ``Location Error: Timeout expired''.
\<close>

theorem initial_fix_error_message:
  "error (handleStartTour exact_fp True (PositionError ''Timeout expired'') 1 (initialHome pointsOfInterest None))
     = Some ''Permission Denied: Timeout expired. Please enable location services.''
   \<and> error (handleStartTour exact_fp True (PositionError ''Timeout expired'') 1 (initialHome pointsOfInterest None))
     \<noteq> Some (''Location Error: '' @ ''Timeout expired'')"
  by (simp add: handleStartTour_def Let_def initialHome_def)

text \<open>C7, as the code has it, for the watch callback on the start state of the catalog.\<close>

theorem position_errors_witness:
  "error (watchCallback exact_fp (PositionError ''Timeout expired'') (initialHome pointsOfInterest None))
     = Some ''Location Error: Timeout expired''
   \<and> locations (watchCallback exact_fp (PositionError ''Timeout expired'') (initialHome pointsOfInterest None))
     = map initialLocation pointsOfInterest"
  using position_errors_surfaced[of exact_fp "''Timeout expired''" "initialHome pointsOfInterest None" 1]
  by (simp add: initialHome_def)

text \<open>
  C8, as the code has it. With no audio element mounted, both versions of the playback
  effect return the state as it is, whatever \<open>play()\<close> would have answered: no error is
  set. The update itself never reads the audio element: its result is the same with any
  audio element in place of none.
\<close>

theorem no_audio_element_silent:
  assumes "audioRef st = None"
  shows "playbackEffect outcome st = st
       \<and> playbackEffect_v2 outcome st = st
       \<and> processLocationUpdate fp pos st = (processLocationUpdate fp pos (st\<lparr>audioRef := a\<rparr>))\<lparr>audioRef := None\<rparr>"
proof -
  have "st = st\<lparr>audioRef := None\<rparr>" using assms by simp
  then have "processLocationUpdate fp pos st = (processLocationUpdate fp pos (st\<lparr>audioRef := a\<rparr>))\<lparr>audioRef := None\<rparr>"
    by (metis processLocationUpdate_audioRef Home.update_convs(8) Home.surjective)
  then show ?thesis using assms by (simp add: playbackEffect_def playbackEffect_v2_def)
qed

text \<open>
  C8 as stated fails: after a trigger with no audio element mounted, the playback effect
  leaves the error unset.
\<close>

theorem trigger_without_audio_no_error:
  "activeAudio (processLocationUpdate exact_fp origin (initialHome [poiA] None)) = Some ''/a.m4a''
   \<and> audioRef (processLocationUpdate exact_fp origin (initialHome [poiA] None)) = None
   \<and> error (playbackEffect Rejected (processLocationUpdate exact_fp origin (initialHome [poiA] None))) = None
   \<and> error (playbackEffect_v2 Rejected (processLocationUpdate exact_fp origin (initialHome [poiA] None))) = None"
proof -
  let ?init = "initialHome [poiA] None"
  let ?st = "processLocationUpdate exact_fp origin ?init"
  have l: "locations ?init = [initialLocation poiA]" by (simp add: initialHome_def)
  have f: "find (triggers exact_fp origin) (rev (locations ?init)) = Some (initialLocation poiA)"
    by (simp add: l triggers_A)
  have a: "activeAudio ?st = Some ''/a.m4a''"
    by (simp add: processLocationUpdate_unfold f announce_def) (simp add: initialLocation_def poiA_def)
  have r: "audioRef ?st = None"
    by (simp add: audioRef_processLocationUpdate) (simp add: initialHome_def)
  have e: "error ?st = None"
    by (simp add: processLocationUpdate_unfold f announce_def)
  show ?thesis
    using a r e by (simp add: playbackEffect_def playbackEffect_v2_def)
qed

text \<open>C8, as the code has it, on a start state without an audio element.\<close>

theorem no_audio_element_witness:
  "playbackEffect Rejected (initialHome [poiA] None) = initialHome [poiA] None
   \<and> playbackEffect_v2 Rejected (initialHome [poiA] None) = initialHome [poiA] None"
proof -
  have h: "audioRef (initialHome [poiA] None) = None" by (simp add: initialHome_def)
  show ?thesis using no_audio_element_silent[OF h, of Rejected] by simp
qed

text \<open>
  C9, as the code has it. In the second document of \<open>src/app/page.tsx\<close> the button is
  offered exactly when the AR view is not open and a point with id 1 is played. In the
  first document it is offered as soon as any point is played.
\<close>

theorem ar_button_offered:
  "arOffered_v2 st = (\<not> showAR st \<and> (\<exists>p \<in> set (locations st). poi_id p = 1 \<and> played p))
   \<and> arOffered st = (\<exists>p \<in> set (locations st). played p)"
  by (auto simp add: arOffered_def arOffered_v2_def launchARButton_def launchARButton_v2_def list_ex_iff)

text \<open>
  C9 as stated fails on the first document: after an update that plays the point with
  id 2 only, the button is offered while the point with id 1 is not played.
\<close>

theorem ar_offered_without_first_point:
  "map poi_id (locations (processLocationUpdate exact_fp origin (initialHome [poiNorth, poiB] None))) = [1, 2]
   \<and> map played (locations (processLocationUpdate exact_fp origin (initialHome [poiNorth, poiB] None))) = [False, True]
   \<and> arOffered (processLocationUpdate exact_fp origin (initialHome [poiNorth, poiB] None))"
proof -
  let ?init = "initialHome [poiNorth, poiB] None"
  have l: "locations ?init = [initialLocation poiNorth, initialLocation poiB]"
    by (simp add: initialHome_def)
  have b: "js_le (distanceTo exact_fp origin (initialLocation poiB)) TRIGGER_RADIUS"
    using triggers_B by (simp add: triggers_def)
  have n: "\<not> js_le (distanceTo exact_fp origin (initialLocation poiNorth)) TRIGGER_RADIUS"
    using far_North by (simp add: distanceTo_origin_North TRIGGER_RADIUS_def)
  have i: "map poi_id (locations (processLocationUpdate exact_fp origin ?init)) = [1, 2]"
    by (simp add: locations_processLocationUpdate l visited_def)
       (simp add: initialLocation_def poiNorth_def poiB_def)
  have p: "map played (locations (processLocationUpdate exact_fp origin ?init)) = [False, True]"
    by (simp add: locations_processLocationUpdate l played_visited b n)
       (simp add: initialLocation_def)
  have "arOffered (processLocationUpdate exact_fp origin ?init)"
    by (simp add: arOffered_def launchARButton_def list_ex_iff locations_processLocationUpdate l
        played_visited b)
  then show ?thesis using i p by blast
qed

text \<open>C9, as the code has it, before and after the update that plays the point with id 1.\<close>

theorem ar_button_witness:
  "arOffered_v2 (processLocationUpdate exact_fp origin (initialHome [poiA] None))
   \<and> \<not> arOffered_v2 (initialHome [poiA] None)"
proof -
  let ?init = "initialHome [poiA] None"
  have l: "locations ?init = [initialLocation poiA]" by (simp add: initialHome_def)
  have s0: "showAR ?init = False" by (simp add: initialHome_def)
  have s: "showAR (processLocationUpdate exact_fp origin ?init) = False"
    by (simp only: showAR_processLocationUpdate s0)
  have p: "played (visited exact_fp origin (initialLocation poiA))"
    using triggers_A by (simp add: played_visited triggers_def)
  have i: "poi_id (visited exact_fp origin (initialLocation poiA)) = 1"
    by (simp add: visited_def initialLocation_def poiA_def)
  have q: "\<not> played (initialLocation poiA)" by (simp add: initialLocation_def)
  show ?thesis
    using ar_button_offered[of "processLocationUpdate exact_fp origin ?init"] ar_button_offered[of ?init]
    by (simp add: s s0 locations_processLocationUpdate l p i q)
qed

end
